theory Spec2Isabelle
  imports Main "HOL-Library.Sublist"
begin

section \<open>The EdgeX collector (edgex.chart.py)\<close>

text \<open>
  The module collects metrics from four EdgeX services. \<open>Service._get_data\<close> starts one
  thread per enabled entry of \<open>self.methods\<close>; each thread runs one of four routines, all
  wrapped by \<open>get_survive_any\<close>, which fetch one URL, parse the answer and put one dict
  (a fragment) into a shared queue. The main thread joins the threads, takes one item from
  the queue per thread and merges the items with \<open>dict.update\<close>.
\<close>

subsection \<open>Python values and exceptions\<close>

text \<open>
  Floating point numbers that \<open>json.loads\<close> may return are only carried around by the
  module (never computed with), so their type is left opaque.
\<close>

typedecl pyfloat

text \<open>
  The values \<open>json.loads\<close> returns, and the values stored in a fragment. A dict is an
  association list read with \<open>map_of\<close>; its length is the number of its distinct keys.
  A \<open>char\<close> stands for one character of a Python string.
\<close>

datatype pyval =
    PNone
  | PBool bool
  | PInt int
  | PFloat pyfloat
  | PStr string
  | PList "pyval list"
  | PDict "(string \<times> pyval) list"

text \<open>The exceptions that \<open>except Exception\<close> catches.\<close>

datatype pyexc = ValueError | KeyError | TypeError | OtherException string

text \<open>\<open>obj[key]\<close> with a string key: only a dict accepts it, and the key must be there.\<close>

fun getitem :: "pyval \<Rightarrow> string \<Rightarrow> pyexc + pyval" where
  "getitem (PDict kvs) k = (case map_of kvs k of None \<Rightarrow> Inl KeyError | Some v \<Rightarrow> Inr v)"
| "getitem _ k = Inl TypeError"

text \<open>\<open>len(obj)\<close>: defined for strings, lists and dicts, a TypeError for everything else.\<close>

fun py_len :: "pyval \<Rightarrow> pyexc + nat" where
  "py_len (PStr s) = Inr (length s)"
| "py_len (PList xs) = Inr (length xs)"
| "py_len (PDict kvs) = Inr (length (remdups (map fst kvs)))"
| "py_len _ = Inl TypeError"

text \<open>\<open>not raw\<close>: true for \<open>None\<close> and for the empty string.\<close>

definition py_not :: "string option \<Rightarrow> bool" where
  "py_not raw = (case raw of None \<Rightarrow> True | Some s \<Rightarrow> s = [])"

text \<open>\<open>sub in s\<close> on strings is the test for a contiguous substring, \<^const>\<open>sublist\<close>.\<close>

subsection \<open>The collaborators outside the module\<close>

text \<open>
  \<open>UrlService._get_raw_data\<close>, the builtin \<open>int\<close> and \<open>json.loads\<close> are not part of the
  module; they are parameters. Each may return or raise; \<open>_get_raw_data\<close> returns the body
  of the answer or \<open>None\<close>. Within one cycle a URL has one answer.
\<close>

record env =
  get_raw_data :: "string \<Rightarrow> pyexc + string option"
  py_int :: "string \<Rightarrow> pyexc + int"
  json_loads :: "string \<Rightarrow> pyexc + pyval"

subsection \<open>Configuration and \<open>Service.__init__\<close>\<close>

text \<open>
  The job configuration: every key may be absent, \<open>configuration.get(key, default)\<close>.
  The ports are strings, as their defaults are (the URLs are built from them and the
  runtime-metrics routine looks for them in a URL); the three flags are booleans.
\<close>

record configuration =
  protocol :: "string option"
  host :: "string option"
  port_logging :: "string option"
  port_data :: "string option"
  port_metadata :: "string option"
  port_command :: "string option"
  events_per_second :: "bool option"
  number_of_devices :: "bool option"
  metrics :: "bool option"

definition conf_get :: "'a option \<Rightarrow> 'a \<Rightarrow> 'a" where
  "conf_get v dflt = (case v of None \<Rightarrow> dflt | Some x \<Rightarrow> x)"

datatype edgex_service = support_logging | core_data | core_metadata | core_command

text \<open>The four routines a \<open>METHODS\<close> entry can name in its \<open>get_data\<close> field.\<close>

datatype routine =
    core_throughput_events
  | core_throughput_readings
  | device_info
  | metrics_data

record METHODS =
  get_data :: routine
  url :: string
  run :: bool

record service =
  self_url :: string
  edgex_ports :: "edgex_service \<Rightarrow> string"
  url_core_data :: string
  url_core_metadata :: string
  url_core_command :: string
  url_support_logging :: string
  methods :: "METHODS list"

definition init_urls :: "service \<Rightarrow> service" where
  "init_urls self = self
     \<lparr> url_core_data := self_url self @ '':'' @ edgex_ports self core_data @ ''/api/v1/'',
       url_core_metadata := self_url self @ '':'' @ edgex_ports self core_metadata @ ''/api/v1/'',
       url_core_command := self_url self @ '':'' @ edgex_ports self core_command @ ''/api/v1/'',
       url_support_logging :=
         self_url self @ '':'' @ edgex_ports self support_logging @ ''/api/v1/'' \<rparr>"

definition init_methods :: "configuration \<Rightarrow> service \<Rightarrow> service" where
  "init_methods conf self = self
     \<lparr> methods :=
       [ \<lparr> get_data = core_throughput_events, url = url_core_data self,
           run = conf_get (events_per_second conf) True \<rparr>,
         \<lparr> get_data = core_throughput_readings, url = url_core_data self,
           run = conf_get (events_per_second conf) True \<rparr>,
         \<lparr> get_data = device_info, url = url_core_metadata self,
           run = conf_get (number_of_devices conf) True \<rparr>,
         \<lparr> get_data = metrics_data, url = url_core_metadata self,
           run = conf_get (metrics conf) True \<rparr>,
         \<lparr> get_data = metrics_data, url = url_core_data self,
           run = conf_get (metrics conf) True \<rparr>,
         \<lparr> get_data = metrics_data, url = url_core_command self,
           run = conf_get (metrics conf) True \<rparr>,
         \<lparr> get_data = metrics_data, url = url_support_logging self,
           run = conf_get (metrics conf) True \<rparr> ] \<rparr>"

definition Service_init :: "configuration \<Rightarrow> service" where
  "Service_init conf =
     init_methods conf (init_urls
       \<lparr> self_url = conf_get (protocol conf) ''http'' @ ''://'' @ conf_get (host conf) ''localhost'',
         edgex_ports = (\<lambda>s. case s of
             support_logging \<Rightarrow> conf_get (port_logging conf) ''48061''
           | core_data \<Rightarrow> conf_get (port_data conf) ''48080''
           | core_metadata \<Rightarrow> conf_get (port_metadata conf) ''48081''
           | core_command \<Rightarrow> conf_get (port_command conf) ''48082''),
         url_core_data = [], url_core_metadata = [], url_core_command = [],
         url_support_logging = [], methods = [] \<rparr>)"

subsection \<open>The queue and the four routines\<close>

type_synonym fragment = "string \<rightharpoonup> pyval"

text \<open>The queue is first in, first out: \<open>put\<close> appends, \<open>get\<close> takes the head.\<close>

type_synonym queue = "fragment list"

definition put :: "fragment \<Rightarrow> queue \<Rightarrow> queue" where
  "put item q = q @ [item]"

text \<open>
  A routine body takes the queue and returns it updated, together with how it ended:
  \<open>Inr ()\<close> for a return, \<open>Inl e\<close> for the exception \<open>e\<close> leaving the body.
\<close>

type_synonym body = "env \<Rightarrow> service \<Rightarrow> queue \<Rightarrow> string \<Rightarrow> (pyexc + unit) \<times> queue"

definition get_core_throughput_readings :: body where
  "get_core_throughput_readings e self queue u =
     (let data = Map.empty;
          readings_count_url = u @ ''reading/count''
      in case get_raw_data e readings_count_url of
           Inl err \<Rightarrow> (Inl err, queue)
         | Inr raw \<Rightarrow>
             if py_not raw then (Inr (), put Map.empty queue)
             else (case py_int e (the raw) of
                     Inl err \<Rightarrow> (Inl err, queue)
                   | Inr n \<Rightarrow>
                       let data = data(''readings'' \<mapsto> PInt n);
                           data = (if sublist ''event'' u then data(''events'' \<mapsto> PInt n)
                                   else data)
                       in (Inr (), put data queue)))"

definition get_core_throughput_events :: body where
  "get_core_throughput_events e self queue u =
     (let data = Map.empty;
          events_count_url = u @ ''event/count''
      in case get_raw_data e events_count_url of
           Inl err \<Rightarrow> (Inl err, queue)
         | Inr raw \<Rightarrow>
             if py_not raw then (Inr (), put Map.empty queue)
             else (case py_int e (the raw) of
                     Inl err \<Rightarrow> (Inl err, queue)
                   | Inr n \<Rightarrow>
                       let data = data(''events'' \<mapsto> PInt n)
                       in (Inr (), put data queue)))"

definition get_device_info :: body where
  "get_device_info e self queue u =
     (let data = Map.empty;
          device_count_url = u @ ''device''
      in case get_raw_data e device_count_url of
           Inl err \<Rightarrow> (Inl err, queue)
         | Inr raw \<Rightarrow>
             if py_not raw then (Inr (), put Map.empty queue)
             else (case json_loads e (the raw) of
                     Inl err \<Rightarrow> (Inl err, queue)
                   | Inr parsed \<Rightarrow>
                       (case py_len parsed of
                          Inl err \<Rightarrow> (Inl err, queue)
                        | Inr n \<Rightarrow>
                            let data = data(''registered_devices'' \<mapsto> PInt (int n))
                            in (Inr (), put data queue))))"

text \<open>\<open>parsed["Memory"][name]\<close>: two subscriptions, the first failure is raised.\<close>

definition memory_field :: "pyval \<Rightarrow> string \<Rightarrow> pyexc + pyval" where
  "memory_field parsed name =
     (case getitem parsed ''Memory'' of Inl err \<Rightarrow> Inl err | Inr mem \<Rightarrow> getitem mem name)"

text \<open>
  A run of assignments \<open>data[key] = parsed["Memory"][name]\<close>, in order: the first
  subscription that raises ends the run with its exception.
\<close>

fun assign_memory :: "pyval \<Rightarrow> (string \<times> string) list \<Rightarrow> fragment \<Rightarrow> pyexc + fragment" where
  "assign_memory parsed [] data = Inr data"
| "assign_memory parsed ((key, name) # rest) data =
     (case memory_field parsed name of
        Inl err \<Rightarrow> Inl err
      | Inr v \<Rightarrow> assign_memory parsed rest (data(key \<mapsto> v)))"

text \<open>The chain of \<open>if\<close> and \<open>elif\<close> on the ports, which fills \<open>data\<close>.\<close>

definition fill_metrics :: "service \<Rightarrow> string \<Rightarrow> pyval \<Rightarrow> fragment \<Rightarrow> pyexc + fragment" where
  "fill_metrics self u parsed data =
     (if sublist (edgex_ports self core_data) u then
        assign_memory parsed
          [(''core_data_alloc'', ''Alloc''),
           (''core_data_malloc'', ''Mallocs''),
           (''core_data_frees'', ''Frees''),
           (''core_data_live_objects'', ''LiveObjects'')] data
      else if sublist (edgex_ports self core_metadata) u then
        assign_memory parsed
          [(''core_metadata_alloc'', ''Alloc''),
           (''core_metadata_malloc'', ''Mallocs''),
           (''core_metadata_frees'', ''Frees''),
           (''core_metadata_live_objects'', ''LiveObjects'')] data
      else if sublist (edgex_ports self core_command) u then
        assign_memory parsed
          [(''core_command_alloc'', ''Alloc''),
           (''core_command_malloc'', ''Mallocs''),
           (''core_command_frees'', ''Frees'')] data
      else if sublist (edgex_ports self support_logging) u then
        assign_memory parsed
          [(''support_logging_alloc'', ''Alloc''),
           (''support_logging_malloc'', ''Mallocs''),
           (''support_logging_frees'', ''Frees''),
           (''support_logging_live_objects'', ''LiveObjects'')] data
      else Inr data)"

definition get_metrics_data :: body where
  "get_metrics_data e self queue u =
     (let data = Map.empty;
          metrics_url = u @ ''metrics''
      in case get_raw_data e metrics_url of
           Inl err \<Rightarrow> (Inl err, queue)
         | Inr raw \<Rightarrow>
             if py_not raw then (Inr (), put Map.empty queue)
             else (case json_loads e (the raw) of
                     Inl err \<Rightarrow> (Inl err, queue)
                   | Inr parsed \<Rightarrow>
                       (case fill_metrics self u parsed data of
                          Inl err \<Rightarrow> (Inl err, queue)
                        | Inr data \<Rightarrow> (Inr (), put data queue))))"

text \<open>
  The decorator: when the body raises, the error is logged (a collaborator outside the
  module, with no effect on the queue) and a fresh empty dict is put.
\<close>

definition get_survive_any :: "body \<Rightarrow> env \<Rightarrow> service \<Rightarrow> queue \<Rightarrow> string \<Rightarrow> queue" where
  "get_survive_any method e self queue u =
     (case method e self queue u of
        (Inr _, queue') \<Rightarrow> queue'
      | (Inl error, queue') \<Rightarrow> put Map.empty queue')"

fun body_of :: "routine \<Rightarrow> body" where
  "body_of core_throughput_events = get_core_throughput_events"
| "body_of core_throughput_readings = get_core_throughput_readings"
| "body_of device_info = get_device_info"
| "body_of metrics_data = get_metrics_data"

text \<open>What a thread runs: \<open>method.get_data(queue, method.url)\<close>, the decorated routine.\<close>

definition target :: "env \<Rightarrow> service \<Rightarrow> METHODS \<Rightarrow> queue \<Rightarrow> queue" where
  "target e self method queue = get_survive_any (body_of (get_data method)) e self queue (url method)"

subsection \<open>\<open>Service._get_data\<close>\<close>

text \<open>
  Every routine touches the shared queue at most once, by the \<open>put\<close> that ends it, so a
  run of the threads is determined by the order in which the threads reach their
  \<open>put\<close>: the schedule \<open>sched\<close>, a list of indices into the list of started threads. The
  main thread takes items in queue order whenever it takes them, so the threads are
  run first. A \<open>queue.get()\<close> on a queue that is empty for good never returns: the
  result \<open>None\<close> of \<open>join_and_merge\<close> and of \<open>Service_get_data\<close>.
\<close>

definition start_threads :: "service \<Rightarrow> METHODS list" where
  "start_threads self = filter run (methods self)"

definition run_threads :: "env \<Rightarrow> service \<Rightarrow> METHODS list \<Rightarrow> nat list \<Rightarrow> queue \<Rightarrow> queue" where
  "run_threads e self threads sched queue =
     fold (\<lambda>i q. if i < length threads then target e self (threads ! i) q else q) sched queue"

fun join_and_merge :: "METHODS list \<Rightarrow> queue \<Rightarrow> fragment \<Rightarrow> fragment option" where
  "join_and_merge [] queue result = Some result"
| "join_and_merge (thread # rest) queue result =
     (case queue of
        [] \<Rightarrow> None
      | item # queue' \<Rightarrow> join_and_merge rest queue' (result ++ item))"

text \<open>\<open>result or None\<close>: an empty dict is falsy.\<close>

definition or_None :: "fragment \<Rightarrow> fragment option" where
  "or_None result = (if result = Map.empty then None else Some result)"

definition Service_get_data :: "env \<Rightarrow> service \<Rightarrow> nat list \<Rightarrow> fragment option option" where
  "Service_get_data e self sched =
     (let threads = start_threads self;
          queue = run_threads e self threads sched []
      in case join_and_merge threads queue Map.empty of
           None \<Rightarrow> None
         | Some result \<Rightarrow> Some (or_None result))"

text \<open>A schedule in which every started thread runs once.\<close>

definition schedule :: "service \<Rightarrow> nat list \<Rightarrow> bool" where
  "schedule self sched =
     (distinct sched \<and> set sched = {..< length (start_threads self)})"

text \<open>
  The fragment a source contributes in a cycle: the item its thread leaves in the queue
  (\<open>target_fragment\<close> below shows that the thread appends exactly this one item).
\<close>

definition fragment_of :: "env \<Rightarrow> service \<Rightarrow> METHODS \<Rightarrow> fragment" where
  "fragment_of e self method = last (target e self method [])"

section \<open>The specification's reading of a source\<close>

text \<open>
  The specification describes a source as a fetch followed by a parser, each of which
  either fails or succeeds, and lists the fields every kind of source produces. The
  definitions of this section follow the specification; the theorems compare them with
  the routines above.
\<close>

datatype failure = FetchFailure | ParseFailure

text \<open>The path a routine appends to the URL of its source.\<close>

fun endpoint :: "routine \<Rightarrow> string" where
  "endpoint core_throughput_events = ''event/count''"
| "endpoint core_throughput_readings = ''reading/count''"
| "endpoint device_info = ''device''"
| "endpoint metrics_data = ''metrics''"

text \<open>A fetch fails on a fault of the transport, on an absent body and on an empty body.\<close>

definition fetch :: "env \<Rightarrow> string \<Rightarrow> failure + string" where
  "fetch e u =
     (case get_raw_data e u of
        Inl err \<Rightarrow> Inl FetchFailure
      | Inr None \<Rightarrow> Inl FetchFailure
      | Inr (Some raw) \<Rightarrow> if raw = [] then Inl FetchFailure else Inr raw)"

text \<open>
  The service a runtime-metrics URL is attributed to: the first of the four, in the
  order core_data, core_metadata, core_command, support_logging, whose configured port
  occurs in the URL.
\<close>

definition attributed :: "service \<Rightarrow> string \<Rightarrow> edgex_service option" where
  "attributed self u =
     find (\<lambda>s. sublist (edgex_ports self s) u)
       [core_data, core_metadata, core_command, support_logging]"

fun service_name :: "edgex_service \<Rightarrow> string" where
  "service_name core_data = ''core_data''"
| "service_name core_metadata = ''core_metadata''"
| "service_name core_command = ''core_command''"
| "service_name support_logging = ''support_logging''"

text \<open>
  The statistics a service reports, as the suffix of the field and the name under
  \<open>Memory\<close>: core_command does not report \<open>LiveObjects\<close>.
\<close>

definition reported :: "edgex_service \<Rightarrow> (string \<times> string) list" where
  "reported s =
     [(''_alloc'', ''Alloc''), (''_malloc'', ''Mallocs''), (''_frees'', ''Frees'')] @
     (if s = core_command then [] else [(''_live_objects'', ''LiveObjects'')])"

definition service_fields :: "edgex_service \<Rightarrow> (string \<times> string) list" where
  "service_fields s = map (\<lambda>(suffix, name). (service_name s @ suffix, name)) (reported s)"

text \<open>\<open>Memory.name\<close> of a JSON object with a nested object \<open>Memory\<close>.\<close>

definition memory_stat :: "pyval \<Rightarrow> string \<Rightarrow> pyval option" where
  "memory_stat parsed name =
     (case parsed of
        PDict obj \<Rightarrow>
          (case map_of obj ''Memory'' of
             Some (PDict mem) \<Rightarrow> map_of mem name
           | _ \<Rightarrow> None)
      | _ \<Rightarrow> None)"

text \<open>The statistics of a list of fields, when all of them are there.\<close>

definition stat_pairs :: "pyval \<Rightarrow> (string \<times> string) list \<Rightarrow> (string \<times> pyval) list option" where
  "stat_pairs parsed pairs =
     those (map (\<lambda>(k, n). map_option (Pair k) (memory_stat parsed n)) pairs)"

fun parse :: "env \<Rightarrow> service \<Rightarrow> routine \<Rightarrow> string \<Rightarrow> string \<Rightarrow> failure + fragment" where
  "parse e self core_throughput_events u raw =
     (case py_int e raw of
        Inl err \<Rightarrow> Inl ParseFailure
      | Inr n \<Rightarrow> Inr [''events'' \<mapsto> PInt n])"
| "parse e self core_throughput_readings u raw =
     (case py_int e raw of
        Inl err \<Rightarrow> Inl ParseFailure
      | Inr n \<Rightarrow>
          Inr (if sublist ''event'' u then [''readings'' \<mapsto> PInt n, ''events'' \<mapsto> PInt n]
               else [''readings'' \<mapsto> PInt n]))"
| "parse e self device_info u raw =
     (case json_loads e raw of
        Inl err \<Rightarrow> Inl ParseFailure
      | Inr parsed \<Rightarrow>
          (case py_len parsed of
             Inl err \<Rightarrow> Inl ParseFailure
           | Inr n \<Rightarrow> Inr [''registered_devices'' \<mapsto> PInt (int n)]))"
| "parse e self metrics_data u raw =
     (case json_loads e raw of
        Inl err \<Rightarrow> Inl ParseFailure
      | Inr parsed \<Rightarrow>
          (case attributed self u of
             None \<Rightarrow> Inr Map.empty
           | Some s \<Rightarrow>
               (case stat_pairs parsed (service_fields s) of
                  None \<Rightarrow> Inl ParseFailure
                | Some kvs \<Rightarrow> Inr (map_of kvs))))"

definition unit_result :: "env \<Rightarrow> service \<Rightarrow> METHODS \<Rightarrow> failure + fragment" where
  "unit_result e self method =
     (case fetch e (url method @ endpoint (get_data method)) of
        Inl f \<Rightarrow> Inl f
      | Inr raw \<Rightarrow> parse e self (get_data method) (url method) raw)"

text \<open>The fields listed for a source.\<close>

fun field_names :: "service \<Rightarrow> routine \<Rightarrow> string \<Rightarrow> string set" where
  "field_names self core_throughput_events u = {''events''}"
| "field_names self core_throughput_readings u =
     (if sublist ''event'' u then {''readings'', ''events''} else {''readings''})"
| "field_names self device_info u = {''registered_devices''}"
| "field_names self metrics_data u =
     (case attributed self u of
        None \<Rightarrow> {}
      | Some s \<Rightarrow> fst ` set (service_fields s))"

definition fields_of :: "service \<Rightarrow> METHODS \<Rightarrow> string set" where
  "fields_of self method = field_names self (get_data method) (url method)"

text \<open>
  The fragment of a runtime-metrics source attributed to the service \<open>s\<close>, from a
  decoded payload: all the fields of \<open>s\<close>, or nothing when one of them is missing.
\<close>

definition stats_of :: "pyval \<Rightarrow> edgex_service \<Rightarrow> fragment" where
  "stats_of parsed s =
     (case stat_pairs parsed (service_fields s) of None \<Rightarrow> Map.empty | Some kvs \<Rightarrow> map_of kvs)"

section \<open>Example configurations and environments\<close>

text \<open>The job with no key set: every default applies.\<close>

definition default_conf :: configuration where
  "default_conf =
     \<lparr> protocol = None, host = None, port_logging = None, port_data = None,
       port_metadata = None, port_command = None, events_per_second = None,
       number_of_devices = None, metrics = None \<rparr>"

text \<open>
  The scenario of the specification: the event count answers \<open>42\<close>, the device list
  \<open>[1,2,3]\<close>, the metrics of core_data answer a JSON object with \<open>Memory\<close>, and
  every other request times out.
\<close>

definition memory_text :: string where
  \<open>memory_text = ''{"Memory":{"Alloc":100,"Mallocs":5,"Frees":2,"LiveObjects":3}}''\<close>

definition memory_value :: pyval where
  "memory_value =
     PDict [(''Memory'', PDict [(''Alloc'', PInt 100), (''Mallocs'', PInt 5),
                                (''Frees'', PInt 2), (''LiveObjects'', PInt 3)])]"

definition scenario_env :: env where
  "scenario_env =
     \<lparr> get_raw_data = (\<lambda>u.
         if u = ''http://localhost:48080/api/v1/event/count'' then Inr (Some ''42'')
         else if u = ''http://localhost:48081/api/v1/device'' then Inr (Some ''[1,2,3]'')
         else if u = ''http://localhost:48080/api/v1/metrics'' then Inr (Some memory_text)
         else Inr None),
       py_int = (\<lambda>s. if s = ''42'' then Inr 42 else Inl ValueError),
       json_loads = (\<lambda>s.
         if s = ''[1,2,3]'' then Inr (PList [PInt 1, PInt 2, PInt 3])
         else if s = memory_text then Inr memory_value
         else Inl ValueError) \<rparr>"

text \<open>Every request answers \<open>raw\<close>, which \<open>int\<close> reads as \<open>n\<close>; nothing decodes as JSON.\<close>

definition plain_env :: "string \<Rightarrow> int \<Rightarrow> env" where
  "plain_env raw n =
     \<lparr> get_raw_data = (\<lambda>u. Inr (Some raw)),
       py_int = (\<lambda>s. if s = raw then Inr n else Inl ValueError),
       json_loads = (\<lambda>s. Inl ValueError) \<rparr>"

text \<open>Every request answers \<open>raw\<close>, which decodes to \<open>v\<close>; nothing reads as an integer.\<close>

definition json_env :: "string \<Rightarrow> pyval \<Rightarrow> env" where
  "json_env raw v =
     \<lparr> get_raw_data = (\<lambda>u. Inr (Some raw)),
       py_int = (\<lambda>s. Inl ValueError),
       json_loads = (\<lambda>s. if s = raw then Inr v else Inl ValueError) \<rparr>"

text \<open>No request is answered.\<close>

definition dead_env :: env where
  "dead_env =
     \<lparr> get_raw_data = (\<lambda>u. Inr None),
       py_int = (\<lambda>s. Inl ValueError),
       json_loads = (\<lambda>s. Inl ValueError) \<rparr>"

definition object_text :: string where
  \<open>object_text = ''{"a":1,"b":2}''\<close>

definition object_value :: pyval where
  "object_value = PDict [(''a'', PInt 1), (''b'', PInt 2)]"

definition string_text :: string where
  \<open>string_text = ''"abc"''\<close>

text \<open>Only the two counters are collected.\<close>

definition counters_conf :: configuration where
  "counters_conf = default_conf \<lparr> number_of_devices := Some False, metrics := Some False \<rparr>"

text \<open>
  The same, on a host whose name contains \<open>event\<close>; the event count is 1 and the
  reading count is 2.
\<close>

definition event_host_conf :: configuration where
  "event_host_conf = counters_conf \<lparr> host := Some ''event-hub'' \<rparr>"

definition event_host_env :: env where
  "event_host_env =
     \<lparr> get_raw_data = (\<lambda>u.
         if u = ''http://event-hub:48080/api/v1/event/count'' then Inr (Some ''1'')
         else if u = ''http://event-hub:48080/api/v1/reading/count'' then Inr (Some ''2'')
         else Inr None),
       py_int = (\<lambda>s. if s = ''1'' then Inr 1 else if s = ''2'' then Inr 2 else Inl ValueError),
       json_loads = (\<lambda>s. Inl ValueError) \<rparr>"

text \<open>The host \<open>event-hub\<close> with the device list collected too (it is not answered).\<close>

definition event_host_devices_conf :: configuration where
  "event_host_devices_conf = default_conf \<lparr> host := Some ''event-hub'', metrics := Some False \<rparr>"

text \<open>A job whose core_data port, \<open>80\<close>, occurs in its core_metadata port, \<open>8080\<close>.\<close>

definition nested_ports_conf :: configuration where
  "nested_ports_conf = default_conf \<lparr> port_data := Some ''80'', port_metadata := Some ''8080'' \<rparr>"

section \<open>Every routine puts one item\<close>

lemma body_puts_once:
  "(\<exists>f. body_of r e self q u = (Inr (), q @ [f])) \<or> (\<exists>err. body_of r e self q u = (Inl err, q))"
  by (cases r)
     (auto simp: get_core_throughput_events_def get_core_throughput_readings_def
        get_device_info_def get_metrics_data_def put_def Let_def split: sum.splits)

lemma body_queue_indep:
  "body_of r e self q u = (fst (body_of r e self [] u), q @ snd (body_of r e self [] u))"
  by (cases r)
     (auto simp: get_core_throughput_events_def get_core_throughput_readings_def
        get_device_info_def get_metrics_data_def put_def Let_def split: sum.splits)

lemma target_single: "\<exists>f. target e self m [] = [f]"
  using body_puts_once[of "get_data m" e self "[]" "url m"]
  by (auto simp: target_def get_survive_any_def put_def)

lemma target_fragment: "target e self m q = q @ [fragment_of e self m]"
proof -
  obtain f where f: "target e self m [] = [f]" using target_single by blast
  have "target e self m q = q @ target e self m []"
    unfolding target_def get_survive_any_def put_def
    by (subst body_queue_indep) (auto split: sum.splits prod.splits)
  thus ?thesis using f by (simp add: fragment_of_def)
qed

lemma fragment_of_body:
  "fragment_of e self m =
     (case body_of (get_data m) e self [] (url m) of
        (Inr _, q) \<Rightarrow> last q
      | (Inl _, q) \<Rightarrow> Map.empty)"
  using body_puts_once[of "get_data m" e self "[]" "url m"]
  by (auto simp: fragment_of_def target_def get_survive_any_def put_def)

section \<open>The routines against the specification's reading\<close>

lemma memory_field_eq:
  "memory_field parsed name = Inr v \<longleftrightarrow> memory_stat parsed name = Some v"
  by (auto simp: memory_field_def memory_stat_def split: pyval.splits option.splits sum.splits)

lemma stat_pairs_simps:
  "stat_pairs parsed [] = Some []"
  "stat_pairs parsed ((k, n) # rest) =
     (case memory_stat parsed n of
        None \<Rightarrow> None
      | Some v \<Rightarrow> map_option ((#) (k, v)) (stat_pairs parsed rest))"
  by (auto simp: stat_pairs_def split: option.splits)

lemma assign_memory_stat:
  "assign_memory parsed pairs data =
     (case stat_pairs parsed pairs of
        None \<Rightarrow> Inl (projl (assign_memory parsed pairs data))
      | Some kvs \<Rightarrow> Inr (data ++ map_of (rev kvs)))"
proof (induction pairs arbitrary: data)
  case Nil
  show ?case by (simp add: stat_pairs_simps)
next
  case (Cons p pairs)
  obtain k n where p: "p = (k, n)" by (cases p)
  show ?case
  proof (cases "memory_stat parsed n")
    case None
    then obtain err where "memory_field parsed n = Inl err"
      using memory_field_eq[of parsed n] by (cases "memory_field parsed n") auto
    with None show ?thesis by (simp add: p stat_pairs_simps)
  next
    case (Some v)
    hence mf: "memory_field parsed n = Inr v" by (simp add: memory_field_eq)
    have step: "assign_memory parsed (p # pairs) data = assign_memory parsed pairs (data(k \<mapsto> v))"
      by (simp add: p mf)
    show ?thesis
    proof (cases "stat_pairs parsed pairs")
      case None
      hence "isl (assign_memory parsed pairs (data(k \<mapsto> v)))"
        by (subst Cons.IH) simp
      hence "isl (assign_memory parsed (p # pairs) data)"
        unfolding step .
      moreover have "stat_pairs parsed (p # pairs) = None"
        by (simp add: p stat_pairs_simps \<open>memory_stat parsed n = Some v\<close> None)
      ultimately show ?thesis
        by (cases "assign_memory parsed (p # pairs) data") (simp_all del: assign_memory.simps)
    next
      case (Some kvs)
      have "assign_memory parsed pairs (data(k \<mapsto> v)) = Inr (data(k \<mapsto> v) ++ map_of (rev kvs))"
        by (subst Cons.IH) (simp add: Some)
      hence "assign_memory parsed (p # pairs) data = Inr (data(k \<mapsto> v) ++ map_of (rev kvs))"
        unfolding step .
      moreover have "stat_pairs parsed (p # pairs) = Some ((k, v) # kvs)"
        by (simp add: p stat_pairs_simps \<open>memory_stat parsed n = Some v\<close> Some)
      ultimately show ?thesis
        by (simp del: assign_memory.simps)
    qed
  qed
qed

lemma assign_memory_None:
  "stat_pairs parsed pairs = None \<Longrightarrow> \<exists>err. assign_memory parsed pairs data = Inl err"
  by (subst assign_memory_stat) simp

lemma assign_memory_Some:
  "stat_pairs parsed pairs = Some kvs \<Longrightarrow>
     assign_memory parsed pairs data = Inr (data ++ map_of (rev kvs))"
  by (subst assign_memory_stat) simp

lemma stat_pairs_keys: "stat_pairs parsed pairs = Some kvs \<Longrightarrow> map fst kvs = map fst pairs"
proof (induction pairs arbitrary: kvs)
  case Nil thus ?case by (simp add: stat_pairs_simps)
next
  case (Cons p pairs)
  obtain k n where p: "p = (k, n)" by (cases p)
  from Cons.prems Cons.IH show ?case
    by (auto simp: p stat_pairs_simps split: option.splits)
qed

lemma map_of_rev_distinct:
  "distinct (map fst kvs) \<Longrightarrow> map_of (rev kvs) = map_of kvs"
proof (induction kvs)
  case Nil show ?case by simp
next
  case (Cons p kvs)
  obtain k v where p: "p = (k, v)" by (cases p)
  from Cons.prems have nin: "k \<notin> fst ` set kvs" and dist: "distinct (map fst kvs)"
    by (auto simp: p)
  have none: "map_of kvs k = None" using nin by (simp add: map_of_eq_None_iff)
  have "[k \<mapsto> v] ++ map_of kvs = (map_of kvs)(k \<mapsto> v)"
  proof (rule ext)
    fix x show "([k \<mapsto> v] ++ map_of kvs) x = ((map_of kvs)(k \<mapsto> v)) x"
      using none by (simp add: map_add_def split: option.splits)
  qed
  thus ?case using Cons.IH[OF dist] by (simp add: p)
qed

lemma distinct_service_fields: "distinct (map fst (service_fields s))"
  by (cases s) (simp_all add: service_fields_def reported_def)

lemma fill_metrics_attributed:
  "fill_metrics self u parsed data =
     (case attributed self u of
        None \<Rightarrow> Inr data
      | Some s \<Rightarrow> assign_memory parsed (service_fields s) data)"
  by (simp add: fill_metrics_def attributed_def service_fields_def reported_def
        del: assign_memory.simps)

lemma fill_metrics_parse:
  assumes "json_loads e raw = Inr parsed"
  shows "(case fill_metrics self u parsed Map.empty of Inl err \<Rightarrow> Map.empty | Inr data \<Rightarrow> data) =
         (case parse e self metrics_data u raw of Inl f \<Rightarrow> Map.empty | Inr data \<Rightarrow> data)"
proof (cases "attributed self u")
  case None
  thus ?thesis by (simp add: fill_metrics_attributed assms)
next
  case (Some s)
  show ?thesis
  proof (cases "stat_pairs parsed (service_fields s)")
    case None
    from assign_memory_None[OF None, of Map.empty] obtain err
      where "assign_memory parsed (service_fields s) Map.empty = Inl err" by blast
    thus ?thesis
      using None by (simp add: fill_metrics_attributed assms Some)
  next
    case (Some kvs)
    have "distinct (map fst kvs)"
      using stat_pairs_keys[OF Some] distinct_service_fields[of s] by simp
    hence "Map.empty ++ map_of (rev kvs) = map_of kvs"
      by (simp add: map_of_rev_distinct)
    thus ?thesis
      using Some \<open>attributed self u = Some s\<close> assign_memory_Some[OF Some, of Map.empty]
      by (simp add: fill_metrics_attributed assms)
  qed
qed

lemma fragment_events:
  "fragment_of e self \<lparr>get_data = core_throughput_events, url = u, run = b\<rparr> =
     (case unit_result e self \<lparr>get_data = core_throughput_events, url = u, run = b\<rparr> of
        Inl _ \<Rightarrow> Map.empty | Inr f \<Rightarrow> f)"
  by (auto simp: fragment_of_body unit_result_def fetch_def get_core_throughput_events_def
        py_not_def put_def split: sum.splits option.splits)

lemma fragment_readings:
  "fragment_of e self \<lparr>get_data = core_throughput_readings, url = u, run = b\<rparr> =
     (case unit_result e self \<lparr>get_data = core_throughput_readings, url = u, run = b\<rparr> of
        Inl _ \<Rightarrow> Map.empty | Inr f \<Rightarrow> f)"
  by (auto simp: fragment_of_body unit_result_def fetch_def get_core_throughput_readings_def
        py_not_def put_def split: sum.splits option.splits)

lemma fragment_device:
  "fragment_of e self \<lparr>get_data = device_info, url = u, run = b\<rparr> =
     (case unit_result e self \<lparr>get_data = device_info, url = u, run = b\<rparr> of
        Inl _ \<Rightarrow> Map.empty | Inr f \<Rightarrow> f)"
  by (auto simp: fragment_of_body unit_result_def fetch_def get_device_info_def
        py_not_def put_def split: sum.splits option.splits)

lemma fragment_metrics:
  "fragment_of e self \<lparr>get_data = metrics_data, url = u, run = b\<rparr> =
     (case unit_result e self \<lparr>get_data = metrics_data, url = u, run = b\<rparr> of
        Inl _ \<Rightarrow> Map.empty | Inr f \<Rightarrow> f)"
proof (cases "get_raw_data e (u @ ''metrics'')")
  case (Inl err)
  thus ?thesis
    by (simp add: fragment_of_body unit_result_def fetch_def get_metrics_data_def)
next
  case got: (Inr raw)
  show ?thesis
  proof (cases "py_not raw")
    case True
    with got show ?thesis
      by (auto simp: fragment_of_body unit_result_def fetch_def get_metrics_data_def py_not_def
            put_def split: option.splits)
  next
    case False
    then obtain s where raw: "raw = Some s" "s \<noteq> []"
      by (auto simp: py_not_def split: option.splits)
    have R: "unit_result e self \<lparr>get_data = metrics_data, url = u, run = b\<rparr> =
               parse e self metrics_data u s"
      using got raw by (simp add: unit_result_def fetch_def del: parse.simps)
    show ?thesis
    proof (cases "json_loads e s")
      case (Inl err)
      with got raw show ?thesis
        by (simp add: fragment_of_body unit_result_def fetch_def get_metrics_data_def py_not_def)
    next
      case loaded: (Inr parsed)
      have L: "fragment_of e self \<lparr>get_data = metrics_data, url = u, run = b\<rparr> =
                 (case fill_metrics self u parsed Map.empty of
                    Inl err \<Rightarrow> Map.empty | Inr data \<Rightarrow> data)"
        using got raw loaded
        by (simp add: fragment_of_body get_metrics_data_def py_not_def put_def
              split: sum.splits)
      show ?thesis
        unfolding L R by (rule fill_metrics_parse[OF loaded])
    qed
  qed
qed

lemma fragment_refines:
  "fragment_of e self m = (case unit_result e self m of Inl _ \<Rightarrow> Map.empty | Inr f \<Rightarrow> f)"
proof -
  obtain r u b where m: "m = \<lparr>get_data = r, url = u, run = b\<rparr>" by (cases m) auto
  show ?thesis
    unfolding m
    by (cases r; simp only: fragment_events fragment_readings fragment_device fragment_metrics)
qed

lemma parse_fields:
  assumes "parse e self r u raw = Inr f"
  shows "dom f = field_names self r u"
proof (cases r)
  case metrics_data
  show ?thesis
  proof (cases "attributed self u")
    case None
    with assms metrics_data show ?thesis by (auto split: sum.splits)
  next
    case (Some s)
    with assms metrics_data obtain parsed kvs where
      kvs: "stat_pairs parsed (service_fields s) = Some kvs" and f: "f = map_of kvs"
      by (auto split: sum.splits option.splits)
    have "dom f = fst ` set kvs" by (simp add: f dom_map_of_conv_image_fst)
    also have "\<dots> = set (map fst kvs)" by simp
    also have "\<dots> = fst ` set (service_fields s)" by (simp add: stat_pairs_keys[OF kvs])
    finally show ?thesis by (simp add: metrics_data Some)
  qed
qed (use assms in \<open>auto split: sum.splits if_splits\<close>)

lemma unit_result_fields:
  "unit_result e self m = Inr f \<Longrightarrow> dom f = fields_of self m"
  by (auto simp: unit_result_def fields_of_def split: sum.splits dest: parse_fields)

lemma fragment_keys:
  "dom (fragment_of e self m) = {} \<or> dom (fragment_of e self m) = fields_of self m"
  by (cases "unit_result e self m") (simp_all add: fragment_refines unit_result_fields)

lemma fragment_keys_subset: "dom (fragment_of e self m) \<subseteq> fields_of self m"
  using fragment_keys[of e self m] by auto

lemma fetch_ok:
  "get_raw_data e u = Inr (Some raw) \<Longrightarrow> raw \<noteq> [] \<Longrightarrow> fetch e u = Inr raw"
  by (simp add: fetch_def)

lemma events_no_readings:
  "fragment_of e self \<lparr>get_data = core_throughput_events, url = u, run = b\<rparr> ''readings'' = None"
  by (simp add: fragment_events unit_result_def split: sum.splits)

lemma metrics_decoded:
  assumes "get_raw_data e (u @ ''metrics'') = Inr (Some raw)" "raw \<noteq> []"
      and "json_loads e raw = Inr parsed"
  shows "fragment_of e self \<lparr>get_data = metrics_data, url = u, run = b\<rparr> =
           (case attributed self u of None \<Rightarrow> Map.empty | Some s \<Rightarrow> stats_of parsed s)"
  using assms
  by (simp add: fragment_metrics unit_result_def fetch_ok stats_of_def
        split: option.splits)

lemma memory_stat_nested:
  "map_of obj ''Memory'' = Some (PDict mem) \<Longrightarrow> memory_stat (PDict obj) name = map_of mem name"
  by (simp add: memory_stat_def)

lemma device_decoded:
  assumes "get_raw_data e (u @ ''device'') = Inr (Some raw)" and "raw \<noteq> []"
      and "json_loads e raw = Inr parsed"
  shows "fragment_of e self \<lparr>get_data = device_info, url = u, run = b\<rparr> =
           (case py_len parsed of
              Inl err \<Rightarrow> Map.empty
            | Inr n \<Rightarrow> [''registered_devices'' \<mapsto> PInt (int n)])"
  using assms
  by (simp add: fragment_device unit_result_def fetch_ok split: sum.splits)

section \<open>The merge\<close>

lemma run_threads_queue:
  "run_threads e self ths sched q =
     q @ map (\<lambda>i. fragment_of e self (ths ! i)) (filter (\<lambda>i. i < length ths) sched)"
  unfolding run_threads_def
  by (induction sched arbitrary: q) (auto simp: target_fragment)

lemma join_and_merge_eq:
  "join_and_merge ths q r =
     (if length q < length ths then None
      else Some (foldl (++) r (take (length ths) q)))"
  by (induction ths q r rule: join_and_merge.induct) (auto split: list.splits)

lemma schedule_length: "schedule self sched \<Longrightarrow> length sched = length (start_threads self)"
  unfolding schedule_def by (metis card_lessThan distinct_card)

lemma schedule_filter:
  "schedule self sched \<Longrightarrow> filter (\<lambda>i. i < length (start_threads self)) sched = sched"
  unfolding schedule_def by (auto simp: filter_id_conv)

lemma get_data_eq:
  assumes "schedule self sched"
  shows "Service_get_data e self sched =
     Some (or_None (foldl (++) Map.empty
       (map (\<lambda>i. fragment_of e self (start_threads self ! i)) sched)))"
  using schedule_length[OF assms] schedule_filter[OF assms]
  by (simp add: Service_get_data_def Let_def run_threads_queue join_and_merge_eq)

lemma dom_foldl_add: "dom (foldl (++) r fs) = dom r \<union> (\<Union>f\<in>set fs. dom f)"
  by (induction fs arbitrary: r) auto

lemma schedule_image:
  assumes "schedule self sched"
  shows "(\<lambda>i. start_threads self ! i) ` set sched = set (start_threads self)"
  using assms unfolding schedule_def by (auto simp: set_conv_nth)

lemma dom_merged:
  assumes "schedule self sched"
  shows "dom (foldl (++) Map.empty (map (\<lambda>i. fragment_of e self (start_threads self ! i)) sched)) =
         (\<Union>m\<in>set (start_threads self). dom (fragment_of e self m))"
proof -
  have "(\<Union>f\<in>set (map (\<lambda>i. fragment_of e self (start_threads self ! i)) sched). dom f) =
        (\<Union>m\<in>(\<lambda>i. start_threads self ! i) ` set sched. dom (fragment_of e self m))"
    by auto
  thus ?thesis by (simp only: dom_foldl_add schedule_image[OF assms]) simp
qed

lemma or_None_iff: "or_None m = None \<longleftrightarrow> dom m = {}"
  by (simp add: or_None_def)

lemma or_None_Some: "or_None m = Some m' \<Longrightarrow> m' = m"
  by (simp add: or_None_def split: if_splits)

lemma foldl_add_last:
  "i < length fs \<Longrightarrow> k \<in> dom (fs ! i) \<Longrightarrow>
   (\<forall>j. i < j \<and> j < length fs \<longrightarrow> k \<notin> dom (fs ! j)) \<Longrightarrow>
   foldl (++) r fs k = (fs ! i) k"
proof (induction fs rule: rev_induct)
  case Nil
  thus ?case by simp
next
  case (snoc g gs)
  show ?case
  proof (cases "i = length gs")
    case True
    with snoc.prems(2) have "k \<in> dom g" by simp
    thus ?thesis using True by (auto simp: map_add_def split: option.splits)
  next
    case False
    with snoc.prems(1) have i: "i < length gs" by simp
    have "k \<notin> dom g"
      using snoc.prems(3)[rule_format, of "length gs"] i by simp
    hence "foldl (++) r (gs @ [g]) k = foldl (++) r gs k"
      by (auto simp: map_add_def split: option.splits)
    moreover have "foldl (++) r gs k = (gs ! i) k"
    proof (rule snoc.IH[OF i])
      show "k \<in> dom (gs ! i)" using snoc.prems(2) i by (simp add: nth_append)
      show "\<forall>j. i < j \<and> j < length gs \<longrightarrow> k \<notin> dom (gs ! j)"
        using snoc.prems(3) by (auto simp: nth_append split: if_splits)
    qed
    ultimately show ?thesis using i by (simp add: nth_append)
  qed
qed

section \<open>Key sets of the sources of a service\<close>

lemma init_methods_sel:
  "methods (init_methods conf self) =
     [ \<lparr> get_data = core_throughput_events, url = url_core_data self,
         run = conf_get (events_per_second conf) True \<rparr>,
       \<lparr> get_data = core_throughput_readings, url = url_core_data self,
         run = conf_get (events_per_second conf) True \<rparr>,
       \<lparr> get_data = device_info, url = url_core_metadata self,
         run = conf_get (number_of_devices conf) True \<rparr>,
       \<lparr> get_data = metrics_data, url = url_core_metadata self,
         run = conf_get (metrics conf) True \<rparr>,
       \<lparr> get_data = metrics_data, url = url_core_data self,
         run = conf_get (metrics conf) True \<rparr>,
       \<lparr> get_data = metrics_data, url = url_core_command self,
         run = conf_get (metrics conf) True \<rparr>,
       \<lparr> get_data = metrics_data, url = url_support_logging self,
         run = conf_get (metrics conf) True \<rparr> ]"
  "url_core_data (init_methods conf self) = url_core_data self"
  "url_core_metadata (init_methods conf self) = url_core_metadata self"
  "url_core_command (init_methods conf self) = url_core_command self"
  "url_support_logging (init_methods conf self) = url_support_logging self"
  by (simp_all add: init_methods_def)

lemma methods_init:
  "methods (Service_init conf) =
     [ \<lparr> get_data = core_throughput_events, url = url_core_data (Service_init conf),
         run = conf_get (events_per_second conf) True \<rparr>,
       \<lparr> get_data = core_throughput_readings, url = url_core_data (Service_init conf),
         run = conf_get (events_per_second conf) True \<rparr>,
       \<lparr> get_data = device_info, url = url_core_metadata (Service_init conf),
         run = conf_get (number_of_devices conf) True \<rparr>,
       \<lparr> get_data = metrics_data, url = url_core_metadata (Service_init conf),
         run = conf_get (metrics conf) True \<rparr>,
       \<lparr> get_data = metrics_data, url = url_core_data (Service_init conf),
         run = conf_get (metrics conf) True \<rparr>,
       \<lparr> get_data = metrics_data, url = url_core_command (Service_init conf),
         run = conf_get (metrics conf) True \<rparr>,
       \<lparr> get_data = metrics_data, url = url_support_logging (Service_init conf),
         run = conf_get (metrics conf) True \<rparr> ]"
  unfolding Service_init_def by (simp only: init_methods_sel)

lemma service_fields_disjoint:
  "s \<noteq> s' \<Longrightarrow> fst ` set (service_fields s) \<inter> fst ` set (service_fields s') = {}"
  by (cases s; cases s'; simp add: service_fields_def reported_def)

lemma service_fields_other:
  "''events'' \<notin> fst ` set (service_fields s)"
  "''readings'' \<notin> fst ` set (service_fields s)"
  "''registered_devices'' \<notin> fst ` set (service_fields s)"
  by (cases s; simp add: service_fields_def reported_def)+

lemma metrics_fields_disjoint:
  assumes neq: "attributed self u \<noteq> attributed self u'"
  shows "field_names self metrics_data u \<inter> field_names self metrics_data u' = {}"
proof (cases "attributed self u")
  case None
  thus ?thesis by simp
next
  case su: (Some s)
  show ?thesis
  proof (cases "attributed self u'")
    case None
    thus ?thesis by simp
  next
    case (Some s')
    have "s \<noteq> s'" using neq su Some by simp
    from service_fields_disjoint[OF this] show ?thesis by (simp add: su Some)
  qed
qed

lemma metrics_fields_other:
  "''events'' \<notin> field_names self metrics_data u"
  "''readings'' \<notin> field_names self metrics_data u"
  "''registered_devices'' \<notin> field_names self metrics_data u"
  by (auto simp: service_fields_other split: option.splits)

lemma init_fields_disjoint:
  assumes "\<not> sublist ''event'' (url_core_data (Service_init conf))"
      and "distinct (map (attributed (Service_init conf))
             [url_core_metadata (Service_init conf), url_core_data (Service_init conf),
              url_core_command (Service_init conf), url_support_logging (Service_init conf)])"
  shows "sorted_wrt (\<lambda>m m'. fields_of (Service_init conf) m \<inter> fields_of (Service_init conf) m' = {})
           (start_threads (Service_init conf))"
proof -
  have "sorted_wrt (\<lambda>m m'. fields_of (Service_init conf) m \<inter> fields_of (Service_init conf) m' = {})
          (methods (Service_init conf))"
    unfolding methods_init
    using assms
    by (simp add: fields_of_def metrics_fields_disjoint metrics_fields_other
          del: field_names.simps(4))
  thus ?thesis
    unfolding start_threads_def by (rule sorted_wrt_filter)
qed

lemma sorted_wrt_nth_neq:
  assumes "sorted_wrt R xs" and "\<And>x y. R x y \<Longrightarrow> R y x"
      and "i < length xs" and "j < length xs" and "i \<noteq> j"
  shows "R (xs ! i) (xs ! j)"
proof (cases "i < j")
  case True
  thus ?thesis using assms(1,4) by (simp add: sorted_wrt_iff_nth_less)
next
  case False
  hence "j < i" using assms(5) by simp
  hence "R (xs ! j) (xs ! i)" using assms(1,3) by (simp add: sorted_wrt_iff_nth_less)
  thus ?thesis by (rule assms(2))
qed

lemma init_fragments_disjoint:
  assumes "\<not> sublist ''event'' (url_core_data (Service_init conf))"
      and "distinct (map (attributed (Service_init conf))
             [url_core_metadata (Service_init conf), url_core_data (Service_init conf),
              url_core_command (Service_init conf), url_support_logging (Service_init conf)])"
      and "i < length (start_threads (Service_init conf))"
      and "j < length (start_threads (Service_init conf))"
      and "i \<noteq> j"
  shows "dom (fragment_of e1 (Service_init conf) (start_threads (Service_init conf) ! i)) \<inter>
         dom (fragment_of e2 (Service_init conf) (start_threads (Service_init conf) ! j)) = {}"
proof -
  have "fields_of (Service_init conf) (start_threads (Service_init conf) ! i) \<inter>
        fields_of (Service_init conf) (start_threads (Service_init conf) ! j) = {}"
    by (rule sorted_wrt_nth_neq[OF init_fields_disjoint[OF assms(1,2)] _ assms(3,4,5)]) auto
  thus ?thesis
    using fragment_keys_subset[of e1 "Service_init conf" "start_threads (Service_init conf) ! i"]
          fragment_keys_subset[of e2 "Service_init conf" "start_threads (Service_init conf) ! j"]
    by blast
qed

lemma merged_disjoint:
  assumes sched: "schedule self sched"
      and disj: "\<forall>i<length (start_threads self). \<forall>j<length (start_threads self). i \<noteq> j \<longrightarrow>
              dom (fragment_of e self (start_threads self ! i)) \<inter>
              dom (fragment_of e self (start_threads self ! j)) = {}"
      and m: "m \<in> set (start_threads self)" and k: "k \<in> dom (fragment_of e self m)"
  shows "foldl (++) Map.empty (map (\<lambda>i. fragment_of e self (start_threads self ! i)) sched) k =
           fragment_of e self m k"
proof -
  define n where "n = length (start_threads self)"
  define frag where "frag = (\<lambda>i. fragment_of e self (start_threads self ! i))"
  from m obtain t where t: "t < n" "start_threads self ! t = m"
    unfolding n_def in_set_conv_nth by blast
  have dist: "distinct sched" and range: "set sched = {..<n}"
    using sched unfolding schedule_def n_def by simp_all
  have "t \<in> set sched" using t(1) range by simp
  then obtain a where a: "a < length sched" "sched ! a = t"
    unfolding in_set_conv_nth by blast
  have kt: "k \<in> dom (frag t)" using k t(2) by (simp add: frag_def)
  have "foldl (++) Map.empty (map frag sched) k = (map frag sched ! a) k"
  proof (rule foldl_add_last)
    show "a < length (map frag sched)" using a(1) by simp
    show "k \<in> dom (map frag sched ! a)" using a kt by simp
    show "\<forall>j. a < j \<and> j < length (map frag sched) \<longrightarrow> k \<notin> dom (map frag sched ! j)"
    proof (intro allI impI)
      fix j assume "a < j \<and> j < length (map frag sched)"
      hence j: "a < j" "j < length sched" by simp_all
      have "sched ! j \<noteq> sched ! a"
        using nth_eq_iff_index_eq[OF dist j(2) a(1)] j(1) by simp
      hence neq: "sched ! j \<noteq> t" unfolding a(2) .
      have "sched ! j \<in> set sched" using j(2) by (rule nth_mem)
      hence lt: "sched ! j < n" using range by simp
      have "dom (frag (sched ! j)) \<inter> dom (frag t) = {}"
        using disj[rule_format, of "sched ! j" t] lt t(1) neq
        unfolding n_def frag_def by simp
      hence "k \<notin> dom (frag (sched ! j))" using kt by blast
      thus "k \<notin> dom (map frag sched ! j)" using j(2) by simp
    qed
  qed
  hence "foldl (++) Map.empty (map frag sched) k = frag t k" using a by simp
  thus ?thesis unfolding frag_def t(2) .
qed

section \<open>The example configurations evaluated\<close>

lemma default_urls:
  "url_core_data (Service_init default_conf) = ''http://localhost:48080/api/v1/''"
  "url_core_metadata (Service_init default_conf) = ''http://localhost:48081/api/v1/''"
  "url_core_command (Service_init default_conf) = ''http://localhost:48082/api/v1/''"
  "url_support_logging (Service_init default_conf) = ''http://localhost:48061/api/v1/''"
  by (simp_all add: Service_init_def init_methods_def init_urls_def default_conf_def conf_get_def)

lemma default_ports:
  "edgex_ports (Service_init default_conf) core_data = ''48080''"
  "edgex_ports (Service_init default_conf) core_metadata = ''48081''"
  "edgex_ports (Service_init default_conf) core_command = ''48082''"
  "edgex_ports (Service_init default_conf) support_logging = ''48061''"
  by (simp_all add: Service_init_def init_methods_def init_urls_def default_conf_def conf_get_def)

lemma default_attributed:
  "attributed (Service_init default_conf) ''http://localhost:48080/api/v1/'' = Some core_data"
  "attributed (Service_init default_conf) ''http://localhost:48081/api/v1/'' = Some core_metadata"
  "attributed (Service_init default_conf) ''http://localhost:48082/api/v1/'' = Some core_command"
  "attributed (Service_init default_conf) ''http://localhost:48061/api/v1/'' = Some support_logging"
  by (simp_all add: attributed_def default_ports sublist_code prefix_code)

lemma scenario_metrics_core_data:
  "unit_result scenario_env (Service_init default_conf)
     \<lparr>get_data = metrics_data, url = ''http://localhost:48080/api/v1/'', run = True\<rparr> =
   Inr (map_of [(''core_data_alloc'', PInt 100), (''core_data_malloc'', PInt 5),
          (''core_data_frees'', PInt 2), (''core_data_live_objects'', PInt 3)])"
  by (simp add: unit_result_def fetch_def scenario_env_def memory_text_def memory_value_def
        default_attributed stat_pairs_simps service_fields_def reported_def memory_stat_def)

lemma scenario_metrics_core_command:
  "unit_result scenario_env (Service_init default_conf)
     \<lparr>get_data = metrics_data, url = ''http://localhost:48082/api/v1/'', run = True\<rparr> =
   Inl FetchFailure"
  by (simp add: unit_result_def fetch_def scenario_env_def)

lemma memory_env_facts:
  "get_raw_data (json_env memory_text memory_value) (u @ ''metrics'') = Inr (Some memory_text)"
  "memory_text \<noteq> []"
  "json_loads (json_env memory_text memory_value) memory_text =
     Inr (PDict [(''Memory'', PDict [(''Alloc'', PInt 100), (''Mallocs'', PInt 5),
                                    (''Frees'', PInt 2), (''LiveObjects'', PInt 3)])])"
  by (simp_all add: json_env_def memory_text_def memory_value_def)

lemma threads_counters:
  "start_threads (Service_init counters_conf) =
     [\<lparr>get_data = core_throughput_events, url = ''http://localhost:48080/api/v1/'', run = True\<rparr>,
      \<lparr>get_data = core_throughput_readings, url = ''http://localhost:48080/api/v1/'', run = True\<rparr>]"
  by (simp add: start_threads_def Service_init_def init_methods_def init_urls_def
        counters_conf_def default_conf_def conf_get_def)

lemma threads_event_host:
  "start_threads (Service_init event_host_conf) =
     [\<lparr>get_data = core_throughput_events, url = ''http://event-hub:48080/api/v1/'', run = True\<rparr>,
      \<lparr>get_data = core_throughput_readings, url = ''http://event-hub:48080/api/v1/'', run = True\<rparr>]"
  by (simp add: start_threads_def Service_init_def init_methods_def init_urls_def
        event_host_conf_def counters_conf_def default_conf_def conf_get_def)

lemma threads_default:
  "start_threads (Service_init default_conf) =
     [\<lparr>get_data = core_throughput_events, url = ''http://localhost:48080/api/v1/'', run = True\<rparr>,
      \<lparr>get_data = core_throughput_readings, url = ''http://localhost:48080/api/v1/'', run = True\<rparr>,
      \<lparr>get_data = device_info, url = ''http://localhost:48081/api/v1/'', run = True\<rparr>,
      \<lparr>get_data = metrics_data, url = ''http://localhost:48081/api/v1/'', run = True\<rparr>,
      \<lparr>get_data = metrics_data, url = ''http://localhost:48080/api/v1/'', run = True\<rparr>,
      \<lparr>get_data = metrics_data, url = ''http://localhost:48082/api/v1/'', run = True\<rparr>,
      \<lparr>get_data = metrics_data, url = ''http://localhost:48061/api/v1/'', run = True\<rparr>]"
  by (simp add: start_threads_def Service_init_def init_methods_def init_urls_def
        default_conf_def conf_get_def)

lemma schedule_two:
  "length (start_threads self) = 2 \<Longrightarrow> schedule self [0, 1]"
  "length (start_threads self) = 2 \<Longrightarrow> schedule self [1, 0]"
  by (auto simp: schedule_def)

lemma schedule_seven:
  "length (start_threads self) = 7 \<Longrightarrow> schedule self [3, 0, 6, 1, 5, 2, 4]"
  by (auto simp: schedule_def)

lemma no_event_in_localhost: "\<not> sublist ''event'' ''http://localhost:48080/api/v1/''"
  by (simp add: sublist_code prefix_code)

lemma event_in_event_hub: "sublist ''event'' ''http://event-hub:48080/api/v1/''"
  by (simp add: sublist_code prefix_code)

lemma zero_fragments:
  "fragment_of (plain_env ''0'' 0) self
     \<lparr>get_data = core_throughput_events, url = ''http://localhost:48080/api/v1/'', run = True\<rparr> =
     [''events'' \<mapsto> PInt 0]"
  "fragment_of (plain_env ''0'' 0) self
     \<lparr>get_data = core_throughput_readings, url = ''http://localhost:48080/api/v1/'', run = True\<rparr> =
     [''readings'' \<mapsto> PInt 0]"
  by (simp_all add: fragment_events fragment_readings unit_result_def fetch_def plain_env_def
        no_event_in_localhost)

lemma dead_fragment: "fragment_of dead_env self m = Map.empty"
  by (simp add: fragment_refines unit_result_def fetch_def dead_env_def)

lemma event_host_results:
  "unit_result event_host_env self
     \<lparr>get_data = core_throughput_events, url = ''http://event-hub:48080/api/v1/'', run = True\<rparr> =
     Inr [''events'' \<mapsto> PInt 1]"
  "unit_result event_host_env self
     \<lparr>get_data = core_throughput_readings, url = ''http://event-hub:48080/api/v1/'', run = True\<rparr> =
     Inr [''readings'' \<mapsto> PInt 2, ''events'' \<mapsto> PInt 2]"
  by (simp_all add: unit_result_def fetch_def event_host_env_def event_in_event_hub)

lemma event_host_fragments:
  "fragment_of event_host_env self
     \<lparr>get_data = core_throughput_events, url = ''http://event-hub:48080/api/v1/'', run = True\<rparr> =
     [''events'' \<mapsto> PInt 1]"
  "fragment_of event_host_env self
     \<lparr>get_data = core_throughput_readings, url = ''http://event-hub:48080/api/v1/'', run = True\<rparr> =
     [''readings'' \<mapsto> PInt 2, ''events'' \<mapsto> PInt 2]"
  by (simp_all add: fragment_refines event_host_results)

lemma or_None_field: "m k = Some v \<Longrightarrow> or_None m = Some m"
  by (auto simp: or_None_def)

lemma zero_snapshot:
  "Service_get_data (plain_env ''0'' 0) (Service_init counters_conf) [1, 0] =
     Some (Some [''readings'' \<mapsto> PInt 0, ''events'' \<mapsto> PInt 0])"
proof -
  have sched: "schedule (Service_init counters_conf) [1, 0]"
    by (rule schedule_two) (simp add: threads_counters)
  show ?thesis
    unfolding get_data_eq[OF sched]
    by (simp add: threads_counters zero_fragments or_None_def)
qed

lemma default_hyps:
  "\<not> sublist ''event'' (url_core_data (Service_init default_conf))"
  "distinct (map (attributed (Service_init default_conf))
     [url_core_metadata (Service_init default_conf), url_core_data (Service_init default_conf),
      url_core_command (Service_init default_conf), url_support_logging (Service_init default_conf)])"
  by (simp_all add: default_urls default_attributed no_event_in_localhost)

lemma scenario_results:
  "unit_result scenario_env self
     \<lparr>get_data = core_throughput_events, url = ''http://localhost:48080/api/v1/'', run = True\<rparr> =
     Inr [''events'' \<mapsto> PInt 42]"
  "unit_result scenario_env self
     \<lparr>get_data = core_throughput_readings, url = ''http://localhost:48080/api/v1/'', run = True\<rparr> =
     Inl FetchFailure"
  "unit_result scenario_env self
     \<lparr>get_data = device_info, url = ''http://localhost:48081/api/v1/'', run = True\<rparr> =
     Inr [''registered_devices'' \<mapsto> PInt 3]"
  "unit_result scenario_env self
     \<lparr>get_data = metrics_data, url = ''http://localhost:48081/api/v1/'', run = True\<rparr> =
     Inl FetchFailure"
  "unit_result scenario_env self
     \<lparr>get_data = metrics_data, url = ''http://localhost:48061/api/v1/'', run = True\<rparr> =
     Inl FetchFailure"
  by (simp_all add: unit_result_def fetch_def scenario_env_def)

lemma nested_ports_collide:
  "attributed (Service_init nested_ports_conf) (url_core_metadata (Service_init nested_ports_conf)) =
     Some core_data \<and>
   attributed (Service_init nested_ports_conf) (url_core_data (Service_init nested_ports_conf)) =
     Some core_data \<and>
   url_core_metadata (Service_init nested_ports_conf) \<noteq>
     url_core_data (Service_init nested_ports_conf)"
  by (simp add: attributed_def Service_init_def init_methods_def init_urls_def
        nested_ports_conf_def default_conf_def conf_get_def sublist_code prefix_code)

lemma threads_event_host_devices:
  "start_threads (Service_init event_host_devices_conf) =
     [\<lparr>get_data = core_throughput_events, url = ''http://event-hub:48080/api/v1/'', run = True\<rparr>,
      \<lparr>get_data = core_throughput_readings, url = ''http://event-hub:48080/api/v1/'', run = True\<rparr>,
      \<lparr>get_data = device_info, url = ''http://event-hub:48081/api/v1/'', run = True\<rparr>]"
  by (simp add: start_threads_def Service_init_def init_methods_def init_urls_def
        event_host_devices_conf_def default_conf_def conf_get_def)

lemma schedule_three:
  "length (start_threads self) = 3 \<Longrightarrow> schedule self [2, 0, 1]"
  by (auto simp: schedule_def)

lemma event_host_device_fails:
  "unit_result event_host_env self
     \<lparr>get_data = device_info, url = ''http://event-hub:48081/api/v1/'', run = True\<rparr> =
     Inl FetchFailure"
  by (simp add: unit_result_def fetch_def event_host_env_def)

section \<open>The claims\<close>

text \<open>
  C8. Every routine, decorated by \<open>get_survive_any\<close>, appends exactly one item to the
  queue, whatever the collaborators answer: when the body returns it has put one item
  (the fragment, or the empty dict of the early exit) and the decorator adds none; when
  the body raises it has put nothing and the decorator puts one empty dict.
\<close>

theorem routine_puts_exactly_once:
  "(\<exists>f. get_survive_any (body_of r) e self queue u = put f queue) \<and>
   (case body_of r e self queue u of
      (Inr _, queue') \<Rightarrow> \<exists>f. queue' = put f queue
    | (Inl err, queue') \<Rightarrow> queue' = queue)"
  using body_puts_once[of r e self queue u]
  by (auto simp: get_survive_any_def put_def)

theorem routine_puts_exactly_once_witness:
  "(\<exists>f. get_survive_any (body_of device_info) scenario_env (Service_init default_conf)
          [] ''http://localhost:48081/api/v1/'' = put f []) \<and>
   (\<exists>f. get_survive_any (body_of metrics_data) scenario_env (Service_init default_conf)
          [] ''http://localhost:48082/api/v1/'' = put f [])"
  using routine_puts_exactly_once[of device_info scenario_env "Service_init default_conf" "[]"
          "''http://localhost:48081/api/v1/''"]
        routine_puts_exactly_once[of metrics_data scenario_env "Service_init default_conf" "[]"
          "''http://localhost:48082/api/v1/''"]
  by blast

text \<open>
  C2. The fragment of a source is all or nothing. It is the empty dict when the fetch or
  the parse fails (\<open>unit_result\<close> is a failure) and the parsed fields otherwise; the
  parsed fields are exactly the fields listed for the source, so the keys of a fragment are
  either none or all of them.
\<close>

theorem fragment_all_or_nothing:
  "fragment_of e self m = (case unit_result e self m of Inl failed \<Rightarrow> Map.empty | Inr f \<Rightarrow> f) \<and>
   (\<forall>f. unit_result e self m = Inr f \<longrightarrow> dom f = fields_of self m) \<and>
   (dom (fragment_of e self m) = {} \<or> dom (fragment_of e self m) = fields_of self m)"
  using fragment_refines[of e self m] fragment_keys[of e self m]
  by (auto dest: unit_result_fields)

theorem fragment_all_or_nothing_witness:
  "fragment_of scenario_env (Service_init default_conf)
     \<lparr>get_data = metrics_data, url = ''http://localhost:48080/api/v1/'', run = True\<rparr> =
     map_of [(''core_data_alloc'', PInt 100), (''core_data_malloc'', PInt 5),
       (''core_data_frees'', PInt 2), (''core_data_live_objects'', PInt 3)] \<and>
   fragment_of scenario_env (Service_init default_conf)
     \<lparr>get_data = metrics_data, url = ''http://localhost:48082/api/v1/'', run = True\<rparr> =
     Map.empty"
  using fragment_all_or_nothing[of scenario_env "Service_init default_conf"
          "\<lparr>get_data = metrics_data, url = ''http://localhost:48080/api/v1/'', run = True\<rparr>"]
        fragment_all_or_nothing[of scenario_env "Service_init default_conf"
          "\<lparr>get_data = metrics_data, url = ''http://localhost:48082/api/v1/'', run = True\<rparr>"]
  by (simp only: scenario_metrics_core_data scenario_metrics_core_command sum.case)

text \<open>
  C5, as amended. The event-count routine, given a body that \<open>int\<close> reads as \<open>n\<close>,
  produces the fragment with the one field \<open>events\<close>, of value \<open>n\<close>. It never
  produces the field \<open>readings\<close>, whatever its URL and whatever it is answered: the
  mirroring of one counter into the other exists only in the reading-count routine.
\<close>

theorem events_parser_fields:
  assumes "get_raw_data e (u @ ''event/count'') = Inr (Some raw)"
      and "raw \<noteq> []"
      and "py_int e raw = Inr n"
  shows "fragment_of e self \<lparr>get_data = core_throughput_events, url = u, run = b\<rparr> =
           [''events'' \<mapsto> PInt n] \<and>
         (\<forall>e' u' b'. ''readings'' \<notin>
            dom (fragment_of e' self \<lparr>get_data = core_throughput_events, url = u', run = b'\<rparr>))"
proof
  show "fragment_of e self \<lparr>get_data = core_throughput_events, url = u, run = b\<rparr> =
          [''events'' \<mapsto> PInt n]"
    using assms by (simp add: fragment_events unit_result_def fetch_ok)
  show "\<forall>e' u' b'. ''readings'' \<notin>
          dom (fragment_of e' self \<lparr>get_data = core_throughput_events, url = u', run = b'\<rparr>)"
    by (simp only: domIff events_no_readings) simp
qed

theorem events_parser_fields_witness:
  "fragment_of (plain_env ''42'' 42) (Service_init default_conf)
     \<lparr>get_data = core_throughput_events, url = ''http://localhost:48080/api/v1/'', run = True\<rparr> =
     [''events'' \<mapsto> PInt 42]"
proof -
  have "get_raw_data (plain_env ''42'' 42) (''http://localhost:48080/api/v1/'' @ ''event/count'') =
          Inr (Some ''42'')"
    and "''42'' \<noteq> []" and "py_int (plain_env ''42'' 42) ''42'' = Inr 42"
    by (simp_all add: plain_env_def)
  from events_parser_fields[OF this] show ?thesis by (rule conjunct1)
qed

text \<open>
  C5 as stated fails: the fragment of the event-count routine has no field
  \<open>readings\<close>, for the configured URL and for a URL in which both \<open>event\<close> and
  \<open>reading\<close> occur.
\<close>

theorem events_parser_readings_counterexample:
  "fragment_of (plain_env ''42'' 42) (Service_init default_conf)
     \<lparr>get_data = core_throughput_events, url = ''http://localhost:48080/api/v1/'', run = True\<rparr>
     ''readings'' = None \<and>
   fragment_of (plain_env ''42'' 42) (Service_init default_conf)
     \<lparr>get_data = core_throughput_events, url = ''http://reading-event:48080/api/v1/'', run = True\<rparr> =
     [''events'' \<mapsto> PInt 42] \<and>
   sublist ''event'' ''http://reading-event:48080/api/v1/'' \<and>
   sublist ''reading'' ''http://reading-event:48080/api/v1/''"
  by (simp add: fragment_events unit_result_def fetch_def plain_env_def sublist_code prefix_code)

text \<open>
  C6. For a URL attributed to the service \<open>s\<close> and a JSON object with a nested object
  \<open>Memory\<close> holding \<open>Alloc\<close>, \<open>Mallocs\<close>, \<open>Frees\<close> and \<open>LiveObjects\<close>, the
  runtime-metrics routine produces exactly the fields \<open>s_alloc\<close>, \<open>s_malloc\<close>,
  \<open>s_frees\<close> and \<open>s_live_objects\<close> with these values, without the last one for
  core_command and with it for the three other services.
\<close>

theorem metrics_parser_fields:
  assumes "attributed self u = Some s"
      and "get_raw_data e (u @ ''metrics'') = Inr (Some raw)" and "raw \<noteq> []"
      and "json_loads e raw = Inr (PDict obj)"
      and "map_of obj ''Memory'' = Some (PDict mem)"
      and "map_of mem ''Alloc'' = Some a" and "map_of mem ''Mallocs'' = Some ma"
      and "map_of mem ''Frees'' = Some fr" and "map_of mem ''LiveObjects'' = Some lo"
  shows "fragment_of e self \<lparr>get_data = metrics_data, url = u, run = b\<rparr> =
           (if s = core_command then
              [service_name s @ ''_alloc'' \<mapsto> a, service_name s @ ''_malloc'' \<mapsto> ma,
               service_name s @ ''_frees'' \<mapsto> fr]
            else
              [service_name s @ ''_alloc'' \<mapsto> a, service_name s @ ''_malloc'' \<mapsto> ma,
               service_name s @ ''_frees'' \<mapsto> fr, service_name s @ ''_live_objects'' \<mapsto> lo])"
proof -
  have frag: "fragment_of e self \<lparr>get_data = metrics_data, url = u, run = b\<rparr> = stats_of (PDict obj) s"
    using metrics_decoded[OF assms(2,3,4), of self b] assms(1) by simp
  have stats: "memory_stat (PDict obj) ''Alloc'' = Some a"
    "memory_stat (PDict obj) ''Mallocs'' = Some ma"
    "memory_stat (PDict obj) ''Frees'' = Some fr"
    "memory_stat (PDict obj) ''LiveObjects'' = Some lo"
    using assms(5-9) by (simp_all add: memory_stat_nested)
  show ?thesis
    unfolding frag stats_of_def
    by (cases s; rule ext)
       (simp_all add: service_fields_def reported_def stat_pairs_simps stats)
qed

theorem metrics_parser_fields_witness:
  "fragment_of (json_env memory_text memory_value) (Service_init default_conf)
     \<lparr>get_data = metrics_data, url = ''http://localhost:48080/api/v1/'', run = True\<rparr> =
     [''core_data_alloc'' \<mapsto> PInt 100, ''core_data_malloc'' \<mapsto> PInt 5,
      ''core_data_frees'' \<mapsto> PInt 2, ''core_data_live_objects'' \<mapsto> PInt 3] \<and>
   fragment_of (json_env memory_text memory_value) (Service_init default_conf)
     \<lparr>get_data = metrics_data, url = ''http://localhost:48082/api/v1/'', run = True\<rparr> =
     [''core_command_alloc'' \<mapsto> PInt 100, ''core_command_malloc'' \<mapsto> PInt 5,
      ''core_command_frees'' \<mapsto> PInt 2]"
proof -
  let ?mem = "[(''Alloc'', PInt 100), (''Mallocs'', PInt 5), (''Frees'', PInt 2),
               (''LiveObjects'', PInt 3)]"
  have nested: "map_of [(''Memory'', PDict ?mem)] ''Memory'' = Some (PDict ?mem)"
    and stats: "map_of ?mem ''Alloc'' = Some (PInt 100)" "map_of ?mem ''Mallocs'' = Some (PInt 5)"
      "map_of ?mem ''Frees'' = Some (PInt 2)" "map_of ?mem ''LiveObjects'' = Some (PInt 3)"
    by simp_all
  note data = metrics_parser_fields[OF default_attributed(1) memory_env_facts nested stats,
      of True]
  note command = metrics_parser_fields[OF default_attributed(3) memory_env_facts nested stats,
      of True]
  from data command show ?thesis by simp
qed

text \<open>
  C9. Given a payload that is fetched and decoded: when none of the four configured ports
  occurs in the URL, the runtime-metrics routine returns without raising and puts the empty
  fragment (and its fragment is empty whatever it is answered); otherwise the fields are
  those of the first service, in the order core_data, core_metadata, core_command,
  support_logging, whose port occurs in the URL, also when several ports occur.
\<close>

theorem metrics_attribution:
  assumes "get_raw_data e (u @ ''metrics'') = Inr (Some raw)" and "raw \<noteq> []"
      and "json_loads e raw = Inr parsed"
  shows "(\<not> sublist (edgex_ports self core_data) u \<and>
          \<not> sublist (edgex_ports self core_metadata) u \<and>
          \<not> sublist (edgex_ports self core_command) u \<and>
          \<not> sublist (edgex_ports self support_logging) u \<longrightarrow>
            get_metrics_data e self queue u = (Inr (), put Map.empty queue) \<and>
            (\<forall>e'. fragment_of e' self \<lparr>get_data = metrics_data, url = u, run = b\<rparr> = Map.empty)) \<and>
         (sublist (edgex_ports self core_data) u \<longrightarrow>
            fragment_of e self \<lparr>get_data = metrics_data, url = u, run = b\<rparr> =
              stats_of parsed core_data) \<and>
         (\<not> sublist (edgex_ports self core_data) u \<and>
          sublist (edgex_ports self core_metadata) u \<longrightarrow>
            fragment_of e self \<lparr>get_data = metrics_data, url = u, run = b\<rparr> =
              stats_of parsed core_metadata) \<and>
         (\<not> sublist (edgex_ports self core_data) u \<and>
          \<not> sublist (edgex_ports self core_metadata) u \<and>
          sublist (edgex_ports self core_command) u \<longrightarrow>
            fragment_of e self \<lparr>get_data = metrics_data, url = u, run = b\<rparr> =
              stats_of parsed core_command) \<and>
         (\<not> sublist (edgex_ports self core_data) u \<and>
          \<not> sublist (edgex_ports self core_metadata) u \<and>
          \<not> sublist (edgex_ports self core_command) u \<and>
          sublist (edgex_ports self support_logging) u \<longrightarrow>
            fragment_of e self \<lparr>get_data = metrics_data, url = u, run = b\<rparr> =
              stats_of parsed support_logging)"
proof -
  have none: "get_metrics_data e self queue u = (Inr (), put Map.empty queue)"
    if "attributed self u = None"
    using that assms by (simp add: get_metrics_data_def py_not_def fill_metrics_attributed)
  have empty: "fragment_of e' self \<lparr>get_data = metrics_data, url = u, run = b\<rparr> = Map.empty"
    if "attributed self u = None" for e'
    using that by (simp add: fragment_metrics unit_result_def split: sum.splits)
  show ?thesis
    using none empty metrics_decoded[OF assms, of self b]
    by (simp add: attributed_def)
qed


theorem metrics_attribution_witness:
  "get_metrics_data (json_env memory_text memory_value) (Service_init default_conf) []
     ''http://localhost:9999/api/v1/'' = (Inr (), put Map.empty []) \<and>
   fragment_of (json_env memory_text memory_value) (Service_init default_conf)
     \<lparr>get_data = metrics_data, url = ''http://localhost:48081/proxy/48080/'', run = True\<rparr> =
     stats_of memory_value core_data \<and>
   stats_of memory_value core_data ''core_data_alloc'' = Some (PInt 100)"
proof -
  have loaded: "json_loads (json_env memory_text memory_value) memory_text = Inr memory_value"
    by (simp add: json_env_def)
  have absent:
    "\<not> sublist (edgex_ports (Service_init default_conf) core_data) ''http://localhost:9999/api/v1/''"
    "\<not> sublist (edgex_ports (Service_init default_conf) core_metadata) ''http://localhost:9999/api/v1/''"
    "\<not> sublist (edgex_ports (Service_init default_conf) core_command) ''http://localhost:9999/api/v1/''"
    "\<not> sublist (edgex_ports (Service_init default_conf) support_logging) ''http://localhost:9999/api/v1/''"
    by (simp_all add: default_ports sublist_code prefix_code)
  have both:
    "sublist (edgex_ports (Service_init default_conf) core_data) ''http://localhost:48081/proxy/48080/''"
    "sublist (edgex_ports (Service_init default_conf) core_metadata) ''http://localhost:48081/proxy/48080/''"
    by (simp_all add: default_ports sublist_code prefix_code)
  have alloc: "stats_of memory_value core_data ''core_data_alloc'' = Some (PInt 100)"
    by (simp add: stats_of_def memory_value_def service_fields_def reported_def stat_pairs_simps
          memory_stat_def)
  from metrics_attribution[where u = "''http://localhost:9999/api/v1/''"
      and self = "Service_init default_conf" and queue = "[]" and b = True,
      OF memory_env_facts(1,2) loaded] absent
  have "get_metrics_data (json_env memory_text memory_value) (Service_init default_conf) []
     ''http://localhost:9999/api/v1/'' = (Inr (), put Map.empty [])"
    by blast
  moreover
  from metrics_attribution[where u = "''http://localhost:48081/proxy/48080/''"
      and self = "Service_init default_conf" and queue = "[]" and b = True,
      OF memory_env_facts(1,2) loaded] both
  have "fragment_of (json_env memory_text memory_value) (Service_init default_conf)
     \<lparr>get_data = metrics_data, url = ''http://localhost:48081/proxy/48080/'', run = True\<rparr> =
     stats_of memory_value core_data"
    by blast
  ultimately show ?thesis using alloc by blast
qed

text \<open>
  C10. The device-list routine sets \<open>registered_devices\<close> to the length of whatever
  the payload decodes to: the number of elements of an array, the number of keys of an
  object, the number of characters of a string; a number has no length and yields the
  empty fragment.
\<close>

theorem device_parser_length:
  assumes "get_raw_data e (u @ ''device'') = Inr (Some raw)" and "raw \<noteq> []"
      and "json_loads e raw = Inr parsed"
  shows "(\<forall>xs. parsed = PList xs \<longrightarrow>
            fragment_of e self \<lparr>get_data = device_info, url = u, run = b\<rparr> =
              [''registered_devices'' \<mapsto> PInt (int (length xs))]) \<and>
         (\<forall>kvs. parsed = PDict kvs \<longrightarrow>
            fragment_of e self \<lparr>get_data = device_info, url = u, run = b\<rparr> =
              [''registered_devices'' \<mapsto> PInt (int (card (fst ` set kvs)))]) \<and>
         (\<forall>s. parsed = PStr s \<longrightarrow>
            fragment_of e self \<lparr>get_data = device_info, url = u, run = b\<rparr> =
              [''registered_devices'' \<mapsto> PInt (int (length s))]) \<and>
         ((\<exists>n. parsed = PInt n) \<or> (\<exists>x. parsed = PFloat x) \<longrightarrow>
            fragment_of e self \<lparr>get_data = device_info, url = u, run = b\<rparr> = Map.empty)"
proof -
  have keys: "length (remdups (map fst kvs)) = card (fst ` set kvs)" for kvs :: "(string \<times> pyval) list"
    by (simp add: length_remdups_card_conv)
  show ?thesis
    unfolding device_decoded[OF assms]
    by (auto simp: keys)
qed

theorem device_parser_length_witness:
  "fragment_of (json_env object_text object_value) (Service_init default_conf)
     \<lparr>get_data = device_info, url = ''http://localhost:48081/api/v1/'', run = True\<rparr> =
     [''registered_devices'' \<mapsto> PInt 2] \<and>
   fragment_of (json_env string_text (PStr ''abc'')) (Service_init default_conf)
     \<lparr>get_data = device_info, url = ''http://localhost:48081/api/v1/'', run = True\<rparr> =
     [''registered_devices'' \<mapsto> PInt 3] \<and>
   fragment_of (json_env ''7'' (PInt 7)) (Service_init default_conf)
     \<lparr>get_data = device_info, url = ''http://localhost:48081/api/v1/'', run = True\<rparr> =
     Map.empty"
proof -
  have obj: "get_raw_data (json_env object_text object_value) (''http://localhost:48081/api/v1/'' @ ''device'') = Inr (Some object_text)"
    "object_text \<noteq> []"
    "json_loads (json_env object_text object_value) object_text =
       Inr (PDict [(''a'', PInt 1), (''b'', PInt 2)])"
    by (simp_all add: json_env_def object_text_def object_value_def)
  have str: "get_raw_data (json_env string_text (PStr ''abc'')) (''http://localhost:48081/api/v1/'' @ ''device'') = Inr (Some string_text)"
    "string_text \<noteq> []"
    "json_loads (json_env string_text (PStr ''abc'')) string_text = Inr (PStr ''abc'')"
    by (simp_all add: json_env_def string_text_def)
  have num: "get_raw_data (json_env ''7'' (PInt 7)) (''http://localhost:48081/api/v1/'' @ ''device'') = Inr (Some ''7'')"
    "''7'' \<noteq> []"
    "json_loads (json_env ''7'' (PInt 7)) ''7'' = Inr (PInt 7)"
    by (simp_all add: json_env_def)
  from device_parser_length[OF obj, of "Service_init default_conf" True]
  have "fragment_of (json_env object_text object_value) (Service_init default_conf)
     \<lparr>get_data = device_info, url = ''http://localhost:48081/api/v1/'', run = True\<rparr> =
     [''registered_devices'' \<mapsto> PInt 2]"
    by simp
  moreover
  from device_parser_length[OF str, of "Service_init default_conf" True]
  have "fragment_of (json_env string_text (PStr ''abc'')) (Service_init default_conf)
     \<lparr>get_data = device_info, url = ''http://localhost:48081/api/v1/'', run = True\<rparr> =
     [''registered_devices'' \<mapsto> PInt 3]"
    by simp
  moreover
  from device_parser_length[OF num, of "Service_init default_conf" True]
  have "fragment_of (json_env ''7'' (PInt 7)) (Service_init default_conf)
     \<lparr>get_data = device_info, url = ''http://localhost:48081/api/v1/'', run = True\<rparr> =
     Map.empty"
    by simp
  ultimately show ?thesis by blast
qed

text \<open>
  C1. For every schedule in which each started thread runs once, \<open>_get_data\<close>
  returns; it returns \<open>None\<close> if and only if no fragment produced in the cycle has a
  field, and otherwise a snapshot whose fields are those of the fragments, whatever their
  values: a snapshot of zero values is a snapshot, not \<open>None\<close>.
\<close>

theorem get_data_None_iff_no_field:
  assumes "schedule self sched"
  shows "\<exists>r. Service_get_data e self sched = Some r \<and>
           (r = None \<longleftrightarrow> (\<Union>m\<in>set (start_threads self). dom (fragment_of e self m)) = {}) \<and>
           (\<forall>snapshot. r = Some snapshot \<longrightarrow>
              dom snapshot = (\<Union>m\<in>set (start_threads self). dom (fragment_of e self m)))"
proof -
  let ?M = "foldl (++) Map.empty (map (\<lambda>i. fragment_of e self (start_threads self ! i)) sched)"
  have r: "Service_get_data e self sched = Some (or_None ?M)"
    by (rule get_data_eq[OF assms])
  have d: "dom ?M = (\<Union>m\<in>set (start_threads self). dom (fragment_of e self m))"
    by (rule dom_merged[OF assms])
  have none: "or_None ?M = None \<longleftrightarrow>
      (\<Union>m\<in>set (start_threads self). dom (fragment_of e self m)) = {}"
    unfolding or_None_iff d ..
  have some: "\<forall>snapshot. or_None ?M = Some snapshot \<longrightarrow>
      dom snapshot = (\<Union>m\<in>set (start_threads self). dom (fragment_of e self m))"
    using d by (auto dest!: or_None_Some)
  show ?thesis
  proof (intro exI conjI)
    show "Service_get_data e self sched = Some (or_None ?M)" by (rule r)
    show "or_None ?M = None \<longleftrightarrow>
      (\<Union>m\<in>set (start_threads self). dom (fragment_of e self m)) = {}" by (rule none)
    show "\<forall>snapshot. or_None ?M = Some snapshot \<longrightarrow>
      dom snapshot = (\<Union>m\<in>set (start_threads self). dom (fragment_of e self m))" by (rule some)
  qed
qed

theorem get_data_None_iff_no_field_witness:
  "schedule (Service_init counters_conf) [1, 0] \<and>
   (\<exists>snapshot. Service_get_data (plain_env ''0'' 0) (Service_init counters_conf) [1, 0] =
        Some (Some snapshot) \<and>
      dom snapshot = {''events'', ''readings''}) \<and>
   Service_get_data (plain_env ''0'' 0) (Service_init counters_conf) [1, 0] =
     Some (Some [''readings'' \<mapsto> PInt 0, ''events'' \<mapsto> PInt 0]) \<and>
   Service_get_data dead_env (Service_init counters_conf) [1, 0] = Some None"
proof -
  let ?S = "Service_init counters_conf"
  have sched: "schedule ?S [1, 0]"
    by (rule schedule_two) (simp add: threads_counters)
  have fields: "(\<Union>m\<in>set (start_threads ?S). dom (fragment_of (plain_env ''0'' 0) ?S m)) =
      {''events'', ''readings''}"
    by (simp add: threads_counters zero_fragments insert_commute)
  have none: "(\<Union>m\<in>set (start_threads ?S). dom (fragment_of dead_env ?S m)) = {}"
    by (simp add: dead_fragment)
  from get_data_None_iff_no_field[OF sched, of "plain_env ''0'' 0"]
  obtain r where r: "Service_get_data (plain_env ''0'' 0) ?S [1, 0] = Some r"
    and iff: "r = None \<longleftrightarrow>
      (\<Union>m\<in>set (start_threads ?S). dom (fragment_of (plain_env ''0'' 0) ?S m)) = {}"
    and dom: "\<forall>snapshot. r = Some snapshot \<longrightarrow> dom snapshot =
      (\<Union>m\<in>set (start_threads ?S). dom (fragment_of (plain_env ''0'' 0) ?S m))"
    by blast
  from iff fields have "r \<noteq> None" by simp
  then obtain snapshot where snap: "r = Some snapshot" by blast
  with dom fields have "dom snapshot = {''events'', ''readings''}" by simp
  with r snap have zero: "\<exists>snapshot. Service_get_data (plain_env ''0'' 0) ?S [1, 0] =
      Some (Some snapshot) \<and> dom snapshot = {''events'', ''readings''}"
    by blast
  from get_data_None_iff_no_field[OF sched, of dead_env]
  obtain r' where r': "Service_get_data dead_env ?S [1, 0] = Some r'"
    and iff': "r' = None \<longleftrightarrow>
      (\<Union>m\<in>set (start_threads ?S). dom (fragment_of dead_env ?S m)) = {}"
    by blast
  from iff' none have "r' = None" by simp
  with r' have dead: "Service_get_data dead_env ?S [1, 0] = Some None" by simp
  from sched zero zero_snapshot dead show ?thesis by (intro conjI)
qed

text \<open>
  C3, as amended. For a service built by \<open>__init__\<close>, when \<open>event\<close> does not occur
  in the URL of core_data and the four runtime-metrics URLs are attributed to four
  different services, the fragments of any two distinct started sources have disjoint key
  sets, whatever each of them is answered.
\<close>

theorem sources_keys_disjoint:
  assumes "\<not> sublist ''event'' (url_core_data (Service_init conf))"
      and "distinct (map (attributed (Service_init conf))
             [url_core_metadata (Service_init conf), url_core_data (Service_init conf),
              url_core_command (Service_init conf), url_support_logging (Service_init conf)])"
      and "i < length (start_threads (Service_init conf))"
      and "j < length (start_threads (Service_init conf))"
      and "i \<noteq> j"
  shows "dom (fragment_of e1 (Service_init conf) (start_threads (Service_init conf) ! i)) \<inter>
         dom (fragment_of e2 (Service_init conf) (start_threads (Service_init conf) ! j)) = {}"
  using assms by (rule init_fragments_disjoint)

theorem sources_keys_disjoint_witness:
  "dom (fragment_of (json_env memory_text memory_value) (Service_init default_conf)
          (start_threads (Service_init default_conf) ! 4)) \<inter>
   dom (fragment_of (json_env memory_text memory_value) (Service_init default_conf)
          (start_threads (Service_init default_conf) ! 5)) = {}"
proof -
  have i: "4 < length (start_threads (Service_init default_conf))"
    and j: "5 < length (start_threads (Service_init default_conf))"
    and neq: "(4::nat) \<noteq> 5"
    by (simp_all add: threads_default)
  show ?thesis
    by (rule sources_keys_disjoint[OF default_hyps i j neq])
qed

text \<open>
  C3 as stated fails: on a host whose name contains \<open>event\<close> the reading-count
  routine also writes the key \<open>events\<close>, the key of the event-count routine. (By
  \<open>nested_ports_collide\<close> two runtime-metrics sources share their keys when one
  configured port occurs in the URL of another service.)
\<close>

theorem sources_keys_disjoint_counterexample:
  "(0::nat) < length (start_threads (Service_init event_host_conf)) \<and>
   (1::nat) < length (start_threads (Service_init event_host_conf)) \<and>
   ''events'' \<in>
     dom (fragment_of event_host_env (Service_init event_host_conf)
            (start_threads (Service_init event_host_conf) ! 0)) \<inter>
     dom (fragment_of event_host_env (Service_init event_host_conf)
            (start_threads (Service_init event_host_conf) ! 1))"
  by (simp add: threads_event_host event_host_fragments)

text \<open>
  C4, as amended. Colliding keys raise no fault: \<open>_get_data\<close> returns a snapshot, and
  for a key held by several fragments the snapshot has the value of the fragment taken
  last from the queue, which silently replaces the values merged before it.
\<close>

theorem colliding_keys_last_put_wins:
  assumes "schedule self sched" and "i < length sched"
      and "k \<in> dom (fragment_of e self (start_threads self ! (sched ! i)))"
      and "\<forall>j. i < j \<and> j < length sched \<longrightarrow>
             k \<notin> dom (fragment_of e self (start_threads self ! (sched ! j)))"
  shows "\<exists>snapshot. Service_get_data e self sched = Some (Some snapshot) \<and>
           snapshot k = fragment_of e self (start_threads self ! (sched ! i)) k"
proof -
  let ?fs = "map (\<lambda>i. fragment_of e self (start_threads self ! i)) sched"
  let ?M = "foldl (++) Map.empty ?fs"
  have "?M k = (?fs ! i) k"
    by (rule foldl_add_last) (use assms(2-4) in auto)
  hence k: "?M k = fragment_of e self (start_threads self ! (sched ! i)) k"
    using assms(2) by simp
  with assms(3) have "?M \<noteq> Map.empty" by (metis domIff empty_iff dom_empty)
  hence "or_None ?M = Some ?M" by (simp add: or_None_def)
  thus ?thesis using get_data_eq[OF assms(1), of e] k by simp
qed

theorem colliding_keys_last_put_wins_witness:
  "schedule (Service_init event_host_conf) [0, 1] \<and>
   (\<exists>snapshot. Service_get_data event_host_env (Service_init event_host_conf) [0, 1] =
        Some (Some snapshot) \<and>
      snapshot ''events'' = Some (PInt 2))"
proof -
  let ?S = "Service_init event_host_conf"
  have sched: "schedule ?S [0, 1]"
    by (rule schedule_two) (simp add: threads_event_host)
  have last: "(1::nat) < length [0::nat, 1]" by simp
  have key: "''events'' \<in> dom (fragment_of event_host_env ?S (start_threads ?S ! ([0, 1] ! 1)))"
    by (simp add: threads_event_host event_host_fragments)
  have later: "\<forall>j. 1 < j \<and> j < length [0::nat, 1] \<longrightarrow>
      ''events'' \<notin> dom (fragment_of event_host_env ?S (start_threads ?S ! ([0, 1] ! j)))"
  proof (intro allI impI)
    fix j :: nat
    assume "1 < j \<and> j < length [0::nat, 1]"
    hence "1 < j" and "j < 2" by simp_all
    hence False by arith
    thus "''events'' \<notin> dom (fragment_of event_host_env ?S (start_threads ?S ! ([0, 1] ! j)))" ..
  qed
  have val: "fragment_of event_host_env ?S (start_threads ?S ! ([0, 1] ! 1)) ''events'' =
      Some (PInt 2)"
    by (simp add: threads_event_host event_host_fragments)
  from colliding_keys_last_put_wins[OF sched last key later]
  have "\<exists>snapshot. Service_get_data event_host_env ?S [0, 1] = Some (Some snapshot) \<and>
      snapshot ''events'' = Some (PInt 2)"
    unfolding val .
  with sched show ?thesis by (rule conjI)
qed

text \<open>
  C4 as stated fails: with the event count 1 and the reading count 2 on a host whose
  name contains \<open>event\<close>, \<open>_get_data\<close> returns normally, with \<open>events\<close> equal to 2
  under one schedule and to 1 under the other.
\<close>

theorem colliding_keys_fault_counterexample:
  "fragment_of event_host_env (Service_init event_host_conf)
     (start_threads (Service_init event_host_conf) ! 0) ''events'' = Some (PInt 1) \<and>
   fragment_of event_host_env (Service_init event_host_conf)
     (start_threads (Service_init event_host_conf) ! 1) ''events'' = Some (PInt 2) \<and>
   schedule (Service_init event_host_conf) [0, 1] \<and>
   Service_get_data event_host_env (Service_init event_host_conf) [0, 1] =
     Some (Some [''events'' \<mapsto> PInt 2, ''readings'' \<mapsto> PInt 2]) \<and>
   schedule (Service_init event_host_conf) [1, 0] \<and>
   Service_get_data event_host_env (Service_init event_host_conf) [1, 0] =
     Some (Some [''readings'' \<mapsto> PInt 2, ''events'' \<mapsto> PInt 1])"
proof -
  let ?S = "Service_init event_host_conf"
  have s01: "schedule ?S [0, 1]" and s10: "schedule ?S [1, 0]"
    by (rule schedule_two, simp add: threads_event_host)+
  have m01: "[''events'' \<mapsto> PInt 1] ++ [''readings'' \<mapsto> PInt 2, ''events'' \<mapsto> PInt 2] =
      [''events'' \<mapsto> PInt 2, ''readings'' \<mapsto> PInt 2]"
    by (rule ext) simp
  have m10: "[''readings'' \<mapsto> PInt 2, ''events'' \<mapsto> PInt 2] ++ [''events'' \<mapsto> PInt 1] =
      [''readings'' \<mapsto> PInt 2, ''events'' \<mapsto> PInt 1]"
    by (rule ext) simp
  have n01: "or_None [''events'' \<mapsto> PInt 2, ''readings'' \<mapsto> PInt (2::int)] =
      Some [''events'' \<mapsto> PInt 2, ''readings'' \<mapsto> PInt 2]"
    by (rule or_None_field[of _ "''events''" "PInt 2"]) simp
  have n10: "or_None [''readings'' \<mapsto> PInt 2, ''events'' \<mapsto> PInt (1::int)] =
      Some [''readings'' \<mapsto> PInt 2, ''events'' \<mapsto> PInt 1]"
    by (rule or_None_field[of _ "''events''" "PInt 1"]) simp
  have "Service_get_data event_host_env ?S [0, 1] =
      Some (Some [''events'' \<mapsto> PInt 2, ''readings'' \<mapsto> PInt 2])"
    unfolding get_data_eq[OF s01]
    by (simp only: threads_event_host event_host_fragments list.map nth_Cons_0 nth_Cons_Suc
          One_nat_def foldl.simps map_add_empty empty_map_add m01 n01)
  moreover have "Service_get_data event_host_env ?S [1, 0] =
      Some (Some [''readings'' \<mapsto> PInt 2, ''events'' \<mapsto> PInt 1])"
    unfolding get_data_eq[OF s10]
    by (simp only: threads_event_host event_host_fragments list.map nth_Cons_0 nth_Cons_Suc
          One_nat_def foldl.simps map_add_empty empty_map_add m10 n10)
  ultimately show ?thesis
    using s01 s10 by (simp add: threads_event_host event_host_fragments)
qed

text \<open>
  C7, as amended. When the fragments of distinct started sources have disjoint key sets,
  \<open>_get_data\<close> returns for every schedule, whichever sources fail: a source whose
  fetch or parse fails contributes the empty fragment, every field of every other source
  is in the snapshot with the value that source parsed, and the snapshot has no other
  field.
\<close>

theorem isolation_when_keys_disjoint:
  assumes "schedule self sched"
      and "\<forall>i<length (start_threads self). \<forall>j<length (start_threads self). i \<noteq> j \<longrightarrow>
              dom (fragment_of e self (start_threads self ! i)) \<inter>
              dom (fragment_of e self (start_threads self ! j)) = {}"
  shows "\<exists>r. Service_get_data e self sched = Some r \<and>
           (\<forall>m\<in>set (start_threads self). \<forall>failed.
              unit_result e self m = Inl failed \<longrightarrow> fragment_of e self m = Map.empty) \<and>
           (\<forall>m\<in>set (start_threads self). \<forall>f.
              unit_result e self m = Inr f \<longrightarrow>
              (\<forall>k\<in>dom f. \<exists>snapshot. r = Some snapshot \<and> snapshot k = f k)) \<and>
           (\<forall>snapshot. r = Some snapshot \<longrightarrow>
              dom snapshot =
                (\<Union>m\<in>set (start_threads self).
                   case unit_result e self m of Inl failed \<Rightarrow> {} | Inr f \<Rightarrow> dom f))"
proof -
  let ?M = "foldl (++) Map.empty (map (\<lambda>i. fragment_of e self (start_threads self ! i)) sched)"
  have r: "Service_get_data e self sched = Some (or_None ?M)"
    by (rule get_data_eq[OF assms(1)])
  have failed: "\<forall>m\<in>set (start_threads self). \<forall>failed.
      unit_result e self m = Inl failed \<longrightarrow> fragment_of e self m = Map.empty"
    by (simp add: fragment_refines)
  have ok: "\<forall>m\<in>set (start_threads self). \<forall>f.
      unit_result e self m = Inr f \<longrightarrow>
      (\<forall>k\<in>dom f. \<exists>snapshot. or_None ?M = Some snapshot \<and> snapshot k = f k)"
  proof (intro ballI allI impI)
    fix m f k
    assume m: "m \<in> set (start_threads self)" and f: "unit_result e self m = Inr f"
      and k: "k \<in> dom f"
    have frag: "fragment_of e self m = f" using f by (simp add: fragment_refines)
    have "?M k = f k"
      using merged_disjoint[OF assms m, of k] k frag by simp
    moreover from this k have "?M \<noteq> Map.empty" by (metis domIff empty_iff dom_empty)
    ultimately show "\<exists>snapshot. or_None ?M = Some snapshot \<and> snapshot k = f k"
      by (simp add: or_None_def)
  qed
  have doms: "dom (fragment_of e self m) =
      (case unit_result e self m of Inl failed \<Rightarrow> {} | Inr f \<Rightarrow> dom f)" for m
    by (simp add: fragment_refines split: sum.splits)
  have dom: "\<forall>snapshot. or_None ?M = Some snapshot \<longrightarrow>
      dom snapshot =
        (\<Union>m\<in>set (start_threads self).
           case unit_result e self m of Inl failed \<Rightarrow> {} | Inr f \<Rightarrow> dom f)"
    using dom_merged[OF assms(1), of e] by (auto dest!: or_None_Some simp: doms)
  show ?thesis
  proof (intro exI conjI)
    show "Service_get_data e self sched = Some (or_None ?M)" by (rule r)
  qed (rule failed ok dom)+
qed

theorem isolation_when_keys_disjoint_witness:
  "schedule (Service_init default_conf) [3, 0, 6, 1, 5, 2, 4] \<and>
   (\<exists>snapshot.
      Service_get_data scenario_env (Service_init default_conf) [3, 0, 6, 1, 5, 2, 4] =
        Some (Some snapshot) \<and>
      snapshot ''events'' = Some (PInt 42) \<and>
      snapshot ''registered_devices'' = Some (PInt 3) \<and>
      dom snapshot =
        {''events'', ''registered_devices'', ''core_data_alloc'', ''core_data_malloc'',
         ''core_data_frees'', ''core_data_live_objects''})"
proof -
  define S where "S = Service_init default_conf"
  define sched :: "nat list" where "sched = [3, 0, 6, 1, 5, 2, 4]"
  define ev where "ev = \<lparr>get_data = core_throughput_events,
    url = ''http://localhost:48080/api/v1/'', run = True\<rparr>"
  define dev where "dev = \<lparr>get_data = device_info,
    url = ''http://localhost:48081/api/v1/'', run = True\<rparr>"
  have sched: "schedule S sched"
    unfolding S_def sched_def by (rule schedule_seven) (simp add: threads_default)
  have disj: "\<forall>i<length (start_threads S). \<forall>j<length (start_threads S). i \<noteq> j \<longrightarrow>
      dom (fragment_of scenario_env S (start_threads S ! i)) \<inter>
      dom (fragment_of scenario_env S (start_threads S ! j)) = {}"
    unfolding S_def by (intro allI impI) (rule init_fragments_disjoint[OF default_hyps])
  have ev: "ev \<in> set (start_threads S)" and dev: "dev \<in> set (start_threads S)"
    unfolding S_def ev_def dev_def by (simp_all add: threads_default)
  have ev_ok: "unit_result scenario_env S ev = Inr [''events'' \<mapsto> PInt 42]"
    unfolding ev_def by (rule scenario_results)
  have dev_ok: "unit_result scenario_env S dev = Inr [''registered_devices'' \<mapsto> PInt 3]"
    unfolding dev_def by (rule scenario_results)
  have fields: "(\<Union>m\<in>set (start_threads S).
       case unit_result scenario_env S m of Inl failed \<Rightarrow> {} | Inr f \<Rightarrow> dom f) =
     {''events'', ''registered_devices'', ''core_data_alloc'', ''core_data_malloc'',
      ''core_data_frees'', ''core_data_live_objects''}"
    unfolding S_def
    by (simp add: threads_default scenario_results scenario_metrics_core_data
          scenario_metrics_core_command insert_commute)
  from isolation_when_keys_disjoint[OF sched disj]
  obtain r where r: "Service_get_data scenario_env S sched = Some r"
    and ok: "\<forall>m\<in>set (start_threads S). \<forall>f. unit_result scenario_env S m = Inr f \<longrightarrow>
        (\<forall>k\<in>dom f. \<exists>snapshot. r = Some snapshot \<and> snapshot k = f k)"
    and dom: "\<forall>snapshot. r = Some snapshot \<longrightarrow>
        dom snapshot =
          (\<Union>m\<in>set (start_threads S).
             case unit_result scenario_env S m of Inl failed \<Rightarrow> {} | Inr f \<Rightarrow> dom f)"
    by (elim exE conjE)
  have "\<exists>snapshot. r = Some snapshot \<and>
      snapshot ''events'' = [''events'' \<mapsto> PInt 42] ''events''"
    by (rule ok[rule_format, OF ev ev_ok]) simp
  then obtain snapshot where snap: "r = Some snapshot"
    and e42: "snapshot ''events'' = Some (PInt 42)"
    by auto
  have "\<exists>snapshot. r = Some snapshot \<and>
      snapshot ''registered_devices'' = [''registered_devices'' \<mapsto> PInt 3] ''registered_devices''"
    by (rule ok[rule_format, OF dev dev_ok]) simp
  hence d3: "snapshot ''registered_devices'' = Some (PInt 3)"
    using snap by auto
  have d: "dom snapshot = {''events'', ''registered_devices'', ''core_data_alloc'',
      ''core_data_malloc'', ''core_data_frees'', ''core_data_live_objects''}"
    using dom[rule_format, OF snap] unfolding fields .
  have "Service_get_data scenario_env S sched = Some (Some snapshot)"
    using r snap by simp
  with e42 d3 d have "\<exists>snapshot.
      Service_get_data scenario_env S sched = Some (Some snapshot) \<and>
      snapshot ''events'' = Some (PInt 42) \<and>
      snapshot ''registered_devices'' = Some (PInt 3) \<and>
      dom snapshot =
        {''events'', ''registered_devices'', ''core_data_alloc'', ''core_data_malloc'',
         ''core_data_frees'', ''core_data_live_objects''}"
    by (intro exI[of _ snapshot] conjI)
  with sched show ?thesis unfolding S_def sched_def by (rule conjI)
qed

text \<open>
  C7 as stated fails when keys collide: only the device list fails, the event-count
  source parses \<open>events\<close> as 1, and the snapshot holds another value for \<open>events\<close>.
\<close>

theorem isolation_counterexample:
  "unit_result event_host_env (Service_init event_host_devices_conf)
     (start_threads (Service_init event_host_devices_conf) ! 0) = Inr [''events'' \<mapsto> PInt 1] \<and>
   unit_result event_host_env (Service_init event_host_devices_conf)
     (start_threads (Service_init event_host_devices_conf) ! 1) =
     Inr [''readings'' \<mapsto> PInt 2, ''events'' \<mapsto> PInt 2] \<and>
   unit_result event_host_env (Service_init event_host_devices_conf)
     (start_threads (Service_init event_host_devices_conf) ! 2) = Inl FetchFailure \<and>
   schedule (Service_init event_host_devices_conf) [2, 0, 1] \<and>
   (\<exists>snapshot.
      Service_get_data event_host_env (Service_init event_host_devices_conf) [2, 0, 1] =
        Some (Some snapshot) \<and>
      snapshot ''events'' \<noteq> Some (PInt 1))"
proof -
  define S where "S = Service_init event_host_devices_conf"
  have sched: "schedule S [2, 0, 1]"
    unfolding S_def by (rule schedule_three) (simp add: threads_event_host_devices)
  have device: "fragment_of event_host_env S
      \<lparr>get_data = device_info, url = ''http://event-hub:48081/api/v1/'', run = True\<rparr> = Map.empty"
    by (simp add: fragment_refines event_host_device_fails)
  have merged: "or_None [''readings'' \<mapsto> PInt 2, ''events'' \<mapsto> PInt (2::int)] =
      Some [''readings'' \<mapsto> PInt 2, ''events'' \<mapsto> PInt 2]"
    by (rule or_None_field[of _ "''events''" "PInt 2"]) simp
  have "Service_get_data event_host_env S [2, 0, 1] =
      Some (Some [''readings'' \<mapsto> PInt 2, ''events'' \<mapsto> PInt 2])"
    unfolding get_data_eq[OF sched] unfolding S_def
    by (simp add: threads_event_host_devices event_host_fragments device[unfolded S_def] merged)
  moreover have "[''readings'' \<mapsto> PInt 2, ''events'' \<mapsto> PInt (2::int)] ''events'' \<noteq>
      Some (PInt 1)"
    by simp
  ultimately have "\<exists>snapshot. Service_get_data event_host_env S [2, 0, 1] = Some (Some snapshot) \<and>
      snapshot ''events'' \<noteq> Some (PInt 1)"
    by blast
  thus ?thesis
    using sched unfolding S_def
    by (simp add: threads_event_host_devices event_host_results event_host_device_fails)
qed

end
